theory Spec2Isabelle
  imports Complex_Main "HOL-Library.Sublist" "HOL-Library.Multiset"
begin

section \<open>JavaScript values used by the application\<close>

text \<open>
  A JavaScript \<open>number\<close> is a finite value, one of the two infinities, or NaN.
  Finite doubles are embedded in the reals: comparison of finite doubles is
  exact. The only arithmetic the modelled code performs on them is one
  subtraction, whose result is the double nearest to the real difference;
  that rounding is a parameter of the model (see \<open>js_sub\<close>).
\<close>

datatype jsnum = Fin real | PInf | NInf | NaN

text \<open>The relational operators \<open><\<close>, \<open>>\<close>, \<open><=\<close>, \<open>>=\<close>: false as soon as NaN is involved.\<close>

fun js_lt :: "jsnum \<Rightarrow> jsnum \<Rightarrow> bool" where
  "js_lt NaN _ = False"
| "js_lt _ NaN = False"
| "js_lt (Fin a) (Fin b) = (a < b)"
| "js_lt (Fin _) PInf = True"
| "js_lt (Fin _) NInf = False"
| "js_lt PInf _ = False"
| "js_lt NInf NInf = False"
| "js_lt NInf _ = True"

definition js_gt :: "jsnum \<Rightarrow> jsnum \<Rightarrow> bool" where
  "js_gt a b = js_lt b a"

fun js_le :: "jsnum \<Rightarrow> jsnum \<Rightarrow> bool" where
  "js_le NaN _ = False"
| "js_le _ NaN = False"
| "js_le (Fin a) (Fin b) = (a \<le> b)"
| "js_le (Fin _) PInf = True"
| "js_le (Fin _) NInf = False"
| "js_le PInf PInf = True"
| "js_le PInf _ = False"
| "js_le NInf _ = True"

definition js_ge :: "jsnum \<Rightarrow> jsnum \<Rightarrow> bool" where
  "js_ge a b = js_le b a"

text \<open>\<open>Math.min\<close> of two numbers: NaN if either is NaN.\<close>

definition Math_min :: "jsnum \<Rightarrow> jsnum \<Rightarrow> jsnum" where
  "Math_min a b =
     (if a = NaN \<or> b = NaN then NaN else if js_lt b a then b else a)"

text \<open>
  The binary \<open>-\<close> on numbers. The difference of two finite doubles is their
  real difference rounded to a double (an infinity on overflow):
  \<open>nearest\<close> is that rounding, from the real difference to the number.
\<close>

fun js_sub :: "(real \<Rightarrow> jsnum) \<Rightarrow> jsnum \<Rightarrow> jsnum \<Rightarrow> jsnum" where
  "js_sub nearest NaN _ = NaN"
| "js_sub nearest _ NaN = NaN"
| "js_sub nearest (Fin a) (Fin b) = nearest (a - b)"
| "js_sub nearest (Fin _) PInf = NInf"
| "js_sub nearest (Fin _) NInf = PInf"
| "js_sub nearest PInf PInf = NaN"
| "js_sub nearest PInf _ = PInf"
| "js_sub nearest NInf NInf = NaN"
| "js_sub nearest NInf _ = NInf"

text \<open>
  A value of unknown type (TypeScript \<open>any\<close>), as far as the code inspects it:
  a number or something else.
\<close>

datatype jsval = JNumber jsnum | JUndefined | JNull | JBool bool | JString string

fun typeof_number :: "jsval \<Rightarrow> bool" where
  "typeof_number (JNumber _) = True"
| "typeof_number _ = False"

text \<open>\<open>a || b\<close> on strings: the empty string is falsy.\<close>

definition or_else :: "string \<Rightarrow> string \<Rightarrow> string" where
  "or_else a b = (if a = [] then b else a)"

text \<open>\<open>a || b\<close> where \<open>a\<close> is a string, \<open>null\<close> or \<open>undefined\<close> (\<open>None\<close>).\<close>

fun or_default :: "string option \<Rightarrow> string \<Rightarrow> string" where
  "or_default None b = b"
| "or_default (Some a) b = or_else a b"

text \<open>\<open>n.toString()\<close> and \<open>`${n}`\<close> for a non-negative integer.\<close>

definition digit_char :: "nat \<Rightarrow> char" where
  "digit_char d = ''0123456789'' ! d"

function toString_nat :: "nat \<Rightarrow> string" where
  "toString_nat n =
     (if n < 10 then [digit_char n]
      else toString_nat (n div 10) @ [digit_char (n mod 10)])"
  by pat_completeness auto
termination
  by (relation "measure id") auto

declare toString_nat.simps [simp del]

text \<open>
  \<open>String.prototype.toLowerCase\<close>, on the ASCII letters; every other character
  is left alone.
\<close>

definition toLowerCase_char :: "char \<Rightarrow> char" where
  "toLowerCase_char c =
     (let n = (of_char c :: nat) in if 65 \<le> n \<and> n \<le> 90 then char_of (n + 32) else c)"

definition toLowerCase :: "string \<Rightarrow> string" where
  "toLowerCase s = map toLowerCase_char s"

text \<open>\<open>s.includes(sub)\<close>: \<open>sub\<close> occurs in \<open>s\<close> as a contiguous run.\<close>

fun js_includes :: "string \<Rightarrow> string \<Rightarrow> bool" where
  "js_includes [] sub = (sub = [])"
| "js_includes (c # cs) sub = (prefix sub (c # cs) \<or> js_includes cs sub)"

text \<open>\<open>s.split(' ')[0]\<close>: the piece before the first space (the whole string if none).\<close>

definition split_space_first :: "string \<Rightarrow> string" where
  "split_space_first s = takeWhile (\<lambda>c. c \<noteq> CHR '' '') s"

section \<open>Data model (\<open>types/lecture.ts\<close>)\<close>

text \<open>
  A \<open>Blob\<close> is its bytes and its MIME type; a \<open>File\<close> adds a name. The
  \<open>size\<close> of either is the number of its bytes.
\<close>

type_synonym byte = nat

record Blob =
  blob_bytes :: "byte list"
  blob_type :: string

record File =
  file_name :: string
  file_bytes :: "byte list"
  file_type :: string

definition file_size :: "File \<Rightarrow> nat" where
  "file_size f = length (file_bytes f)"

record AudioFile =
  af_name :: string
  af_size :: nat
  af_type :: string
  af_url :: string
  af_file :: "File option"

record TranscriptionSegment =
  seg_id :: jsnum
  seg_start :: jsnum
  seg_end :: jsnum
  seg_text :: string

record Topic =
  topic_id :: string
  topic_title :: string
  topic_start :: jsnum
  topic_end :: jsnum
  topic_description :: string
  topic_segments :: "nat list"

record Transcript =
  transcript_text :: string
  transcript_segments :: "TranscriptionSegment list"

record TranscriptionResponse =
  transcript :: Transcript
  topics :: "Topic list"

section \<open>\<open>lib/openai.ts\<close>: splitting a file into chunks\<close>

text \<open>\<open>blob.slice(start, end, type)\<close> for non-negative bounds, each clamped to the size.\<close>

definition slice :: "File \<Rightarrow> nat \<Rightarrow> nat \<Rightarrow> string \<Rightarrow> Blob" where
  "slice f start end' ty =
     (let relativeStart = min start (file_size f);
          relativeEnd = min end' (file_size f)
      in \<lparr>blob_bytes = take (relativeEnd - relativeStart) (drop relativeStart (file_bytes f)),
          blob_type = ty\<rparr>)"

text \<open>\<open>new File(parts, name, {type})\<close>: the parts' bytes, one after the other.\<close>

definition new_File :: "Blob list \<Rightarrow> string \<Rightarrow> string \<Rightarrow> File" where
  "new_File parts name ty =
     \<lparr>file_name = name, file_bytes = concat (map blob_bytes parts), file_type = ty\<rparr>"

definition default_chunkSize :: nat where
  "default_chunkSize = 25 * 1024 * 1024"

text \<open>The \<open>for\<close> loop of \<open>chunkAudioFile\<close>, from index \<open>i\<close> with the chunks pushed so far.\<close>

function chunk_loop :: "File \<Rightarrow> nat \<Rightarrow> nat \<Rightarrow> nat \<Rightarrow> File list \<Rightarrow> File list" where
  "chunk_loop file chunkSize totalChunks i chunks =
     (if i < totalChunks then
        (let start = i * chunkSize;
             end' = min (start + chunkSize) (file_size file);
             chunk = slice file start end' (file_type file)
         in chunk_loop file chunkSize totalChunks (i + 1)
              (chunks @ [new_File [chunk]
                 (file_name file @ ''.part'' @ toString_nat (i + 1)) (file_type file)]))
      else chunks)"
  by pat_completeness auto
termination
  by (relation "measure (\<lambda>(file, chunkSize, totalChunks, i, chunks). totalChunks - i)") auto

declare chunk_loop.simps [simp del]

text \<open>
  \<open>chunkAudioFile(file, chunkSize = 25 * 1024 * 1024)\<close>. The chunk size is a byte
  count. \<open>Math.ceil(file.size / chunkSize)\<close> is the ceiling of the real quotient
  for a positive chunk size. For chunk size 0 the quotient is \<open>Infinity\<close> (the
  loop never exits: \<open>None\<close>) unless the file is empty, when it is NaN and the
  loop body never runs.
\<close>

definition chunkAudioFile :: "File \<Rightarrow> nat option \<Rightarrow> File list option" where
  "chunkAudioFile file chunkSizeArg =
     (let chunkSize = (case chunkSizeArg of None \<Rightarrow> default_chunkSize | Some c \<Rightarrow> c)
      in if chunkSize = 0 then (if file_size file = 0 then Some [] else None)
         else Some (chunk_loop file chunkSize
                      (nat \<lceil>real (file_size file) / real chunkSize\<rceil>) 0 []))"

section \<open>\<open>lib/audio.ts\<close>: the playback controller\<close>

text \<open>
  What an async method hands back: it resolves, it rejects with an \<open>Error\<close>
  (kept by its message), or it is pending (the state that comes with it is
  the one the method has reached at the \<open>await\<close> it waits at).
\<close>

datatype promise = Resolved | Rejected string | Pending

text \<open>
  The buffer source node of the Web Audio path, by the arguments of its
  \<open>start(0, offset, duration)\<close> call and whether that call went through.
\<close>

record SourceNode =
  sn_offset :: jsnum
  sn_duration :: jsnum
  sn_started :: bool

record AudioElement =
  el_src :: "string option"
  el_currentTime :: jsnum
  el_paused :: bool

text \<open>
  The fields of \<open>AudioProcessor\<close>. The decoded \<open>AudioBuffer\<close> is kept by the one
  property the class reads, its \<open>duration\<close> (finite, in seconds).
\<close>

record AudioProcessor =
  audioElement :: AudioElement
  audioBuffer :: "real option"
  sourceNode :: "SourceNode option"
  isLoaded :: bool
  loadError :: "string option"
  objectUrl :: "string option"

text \<open>
  The constructor. \<open>init\<close> is \<open>Some m\<close> when creating the audio context or the
  element throws an error with message \<open>m\<close>.
\<close>

definition new_AudioProcessor :: "string option \<Rightarrow> AudioProcessor" where
  "new_AudioProcessor init =
     \<lparr>audioElement = \<lparr>el_src = None, el_currentTime = Fin 0, el_paused = True\<rparr>,
      audioBuffer = None,
      sourceNode = None,
      isLoaded = False,
      loadError = (case init of
                     None \<Rightarrow> None
                   | Some m \<Rightarrow> Some (''Failed to initialize audio system: '' @ or_else m ''Unknown error'')),
      objectUrl = None\<rparr>"

text \<open>The \<open>error\<close> listener the constructor puts on the element.\<close>

definition on_element_error :: "AudioProcessor \<Rightarrow> AudioProcessor" where
  "on_element_error s = s\<lparr>loadError := Some ''Audio element error occurred''\<rparr>"

text \<open>
  What the browser does during one \<open>loadAudio\<close>: the URL it creates, whether
  \<open>audioElement.load()\<close> throws (it does on the placeholder element of a failed
  constructor), how decoding ends (with a buffer of some duration, with an
  error, or not at all), and which event the element fires (if any).
\<close>

datatype decode_outcome = Decoded real | DecodeFails string | DecodePending

datatype element_load = CanPlayThrough | ElementError | NoEvent

record load_env =
  createObjectURL :: "File \<Rightarrow> string"
  loadThrows :: "string option"
  decodeAudioData :: "File \<Rightarrow> decode_outcome"
  elementEvent :: element_load

text \<open>The last \<open>await\<close> of \<open>loadAudio\<close>, on the promise the element's events settle.\<close>

definition await_element :: "load_env \<Rightarrow> AudioProcessor \<Rightarrow> promise \<times> AudioProcessor" where
  "await_element env s =
     (case elementEvent env of
        CanPlayThrough \<Rightarrow> (Resolved, s\<lparr>isLoaded := True\<rparr>)
      | ElementError \<Rightarrow>
          (Rejected ''Failed to load audio file'',
           s\<lparr>isLoaded := False,
             loadError := Some (''Error loading audio: ''
               @ or_else ''Failed to load audio file'' ''Unknown error'')\<rparr>)
      | NoEvent \<Rightarrow> (Pending, s))"

definition loadAudio :: "load_env \<Rightarrow> File option \<Rightarrow> AudioProcessor \<Rightarrow> promise \<times> AudioProcessor" where
  "loadAudio env fileArg s =
     (case fileArg of
        None \<Rightarrow>
          (Rejected ''No file provided to loadAudio'',
           s\<lparr>loadError := Some ''No file provided to loadAudio''\<rparr>)
      | Some file \<Rightarrow>
          (let s1 = s\<lparr>isLoaded := False, loadError := None\<rparr>;
               url = createObjectURL env file;
               s2 = s1\<lparr>objectUrl := Some url,
                        audioElement := (audioElement s1)\<lparr>el_src := Some url\<rparr>\<rparr>
           in case loadThrows env of
                Some m \<Rightarrow>
                  (Rejected m,
                   s2\<lparr>isLoaded := False,
                      loadError := Some (''Error loading audio: '' @ or_else m ''Unknown error'')\<rparr>)
              | None \<Rightarrow>
                  (case decodeAudioData env file of
                     DecodePending \<Rightarrow> (Pending, s2)
                   | Decoded buffer \<Rightarrow> await_element env (s2\<lparr>audioBuffer := Some buffer\<rparr>)
                   | DecodeFails m \<Rightarrow>
                       await_element env
                         (s2\<lparr>loadError :=
                               Some (''Failed to decode audio: '' @ or_else m ''Unknown error'')\<rparr>))))"

text \<open>\<open>stop()\<close>: errors of the browser calls are caught and dropped.\<close>

definition stop :: "AudioProcessor \<Rightarrow> AudioProcessor" where
  "stop s = s\<lparr>sourceNode := None, audioElement := (audioElement s)\<lparr>el_paused := True\<rparr>\<rparr>"

definition cleanup :: "AudioProcessor \<Rightarrow> AudioProcessor" where
  "cleanup s = (stop s)\<lparr>objectUrl := None, audioBuffer := None, isLoaded := False\<rparr>"

definition getDuration :: "AudioProcessor \<Rightarrow> real" where
  "getDuration s = (case audioBuffer s of None \<Rightarrow> 0 | Some d \<Rightarrow> d)"

text \<open>
  The browser as one \<open>playSegment\<close> meets it: how it rounds the difference of
  two doubles (\<open>nearest_double\<close>), and what happens on the two paths. On the
  buffer path \<open>createBufferSource\<close> may throw (no node is stored), or
  \<open>connect\<close>/\<open>start\<close> may (the node is stored already); on the element path
  setting \<open>currentTime\<close> may throw, or \<open>play()\<close> may reject.
\<close>

datatype buffer_outcome = BufferOk | CreateThrows string | StartThrows string

datatype element_outcome = ElementOk | SeekThrows string | PlayRejects string

record play_env =
  nearest_double :: "real \<Rightarrow> jsnum"
  bufferPath :: buffer_outcome
  elementPath :: element_outcome

text \<open>The buffer path of \<open>playSegment\<close>: the message of a thrown error, and the state.\<close>

definition play_buffer :: "play_env \<Rightarrow> jsnum \<Rightarrow> jsnum \<Rightarrow> AudioProcessor \<Rightarrow> string option \<times> AudioProcessor" where
  "play_buffer env startTime duration s =
     (case audioBuffer s of
        None \<Rightarrow> (None, s)
      | Some bufferDuration \<Rightarrow>
          (let maxDuration = js_sub (nearest_double env) (Fin bufferDuration) startTime;
               actualDuration = Math_min duration maxDuration
           in case bufferPath env of
                CreateThrows m \<Rightarrow> (Some m, s)
              | StartThrows m \<Rightarrow>
                  (Some m, s\<lparr>sourceNode := Some \<lparr>sn_offset = startTime,
                                 sn_duration = actualDuration, sn_started = False\<rparr>\<rparr>)
              | BufferOk \<Rightarrow>
                  (None, s\<lparr>sourceNode := Some \<lparr>sn_offset = startTime,
                                 sn_duration = actualDuration, sn_started = True\<rparr>\<rparr>)))"

text \<open>The element path, with its own \<open>try\<close>/\<open>catch\<close>.\<close>

definition play_element :: "play_env \<Rightarrow> jsnum \<Rightarrow> AudioProcessor \<Rightarrow> string option \<times> AudioProcessor" where
  "play_element env startTime s =
     (case elementPath env of
        ElementOk \<Rightarrow>
          (None, s\<lparr>audioElement := (audioElement s)\<lparr>el_currentTime := startTime, el_paused := False\<rparr>\<rparr>)
      | SeekThrows m \<Rightarrow> (if sourceNode s = None then Some m else None, s)
      | PlayRejects m \<Rightarrow>
          (if sourceNode s = None then Some m else None,
           s\<lparr>audioElement := (audioElement s)\<lparr>el_currentTime := startTime\<rparr>\<rparr>))"

text \<open>
  \<open>playSegment(startTime, duration = 120)\<close>. The start time is whatever the
  caller passes (the method checks its type itself); \<open>durationArg\<close> is \<open>None\<close>
  when the caller omits it.
\<close>

definition playSegment :: "play_env \<Rightarrow> jsval \<Rightarrow> jsnum option \<Rightarrow> AudioProcessor \<Rightarrow> promise \<times> AudioProcessor" where
  "playSegment env startArg durationArg s =
     (let duration = (case durationArg of None \<Rightarrow> Fin 120 | Some d \<Rightarrow> d)
      in if \<not> isLoaded s then
           (Rejected (or_default (loadError s) ''Audio not loaded properly''), s)
         else
           (case startArg of
              JNumber startTime0 \<Rightarrow>
                if startTime0 = NaN then (Rejected ''Invalid start time'', s)
                else
                  (let s1 = stop s;
                       startTime1 = (if js_lt startTime0 (Fin 0) then Fin 0 else startTime0);
                       startTime = (case audioBuffer s1 of
                                      None \<Rightarrow> startTime1
                                    | Some bufferDuration \<Rightarrow>
                                        if js_gt startTime1 (Fin bufferDuration) then Fin 0
                                        else startTime1)
                   in case play_buffer env startTime duration s1 of
                        (Some m, s2) \<Rightarrow>
                          (Rejected (''Failed to play audio: '' @ or_else m ''Unknown error''), s2)
                      | (None, s2) \<Rightarrow>
                          (case play_element env startTime s2 of
                             (Some m, s3) \<Rightarrow>
                               (Rejected (''Failed to play audio: '' @ or_else m ''Unknown error''), s3)
                           | (None, s3) \<Rightarrow> (Resolved, s3)))
            | _ \<Rightarrow> (Rejected ''Invalid start time'', s)))"

text \<open>The message of the error a path of \<open>playSegment\<close> runs into, if it does.\<close>

definition buffer_failure :: "buffer_outcome \<Rightarrow> string option" where
  "buffer_failure b =
     (case b of BufferOk \<Rightarrow> None | CreateThrows m \<Rightarrow> Some m | StartThrows m \<Rightarrow> Some m)"

definition element_failure :: "element_outcome \<Rightarrow> string option" where
  "element_failure e =
     (case e of ElementOk \<Rightarrow> None | SeekThrows m \<Rightarrow> Some m | PlayRejects m \<Rightarrow> Some m)"

text \<open>
  The states an \<open>AudioProcessor\<close> can be in: what the constructor builds, and
  what its methods and its error listener make of such a state.
\<close>

inductive reachable :: "AudioProcessor \<Rightarrow> bool" where
  constructed: "reachable (new_AudioProcessor init)"
| after_loadAudio: "reachable s \<Longrightarrow> reachable (snd (loadAudio lenv fileArg s))"
| after_playSegment: "reachable s \<Longrightarrow> reachable (snd (playSegment env startArg durationArg s))"
| after_stop: "reachable s \<Longrightarrow> reachable (stop s)"
| after_cleanup: "reachable s \<Longrightarrow> reachable (cleanup s)"
| after_element_error: "reachable s \<Longrightarrow> reachable (on_element_error s)"

section \<open>\<open>components/LectureUploader.tsx\<close>: accepting a file\<close>

text \<open>
  What \<open>processFile\<close> does to the outside, in order: a toast (title,
  description, variant), a call of the \<open>onFileSelected\<close> callback, a change of
  the \<open>isProcessing\<close> flag.
\<close>

datatype upload_event =
  Toast string string string
| OnFileSelected AudioFile
| SetIsProcessing bool

text \<open>
  The browser and the caller, as \<open>processFile\<close> meets them: the URL that
  \<open>URL.createObjectURL\<close> makes for a file, and whether the callback throws.
\<close>

record upload_env =
  URL_createObjectURL :: "File \<Rightarrow> string"
  onFileSelected_throws :: "AudioFile \<Rightarrow> bool"

definition max_upload_size :: nat where
  "max_upload_size = 100 * 1024 * 1024"

definition processFile :: "upload_env \<Rightarrow> File option \<Rightarrow> upload_event list" where
  "processFile env fileArg =
     (case fileArg of
        None \<Rightarrow> []
      | Some file \<Rightarrow>
          if \<not> js_includes (file_type file) ''audio'' then
            [Toast ''Invalid File Type'' ''Please upload an audio file (.mp3, .wav, etc.)'' ''destructive'']
          else if file_size file > max_upload_size then
            [Toast ''File Too Large'' ''Please upload an audio file less than 100MB'' ''destructive'']
          else
            [SetIsProcessing True] @
            (let url = URL_createObjectURL env file;
                 audioFile = \<lparr>af_name = file_name file, af_size = file_size file,
                               af_type = file_type file, af_url = url, af_file = Some file\<rparr>
             in OnFileSelected audioFile #
                (if onFileSelected_throws env audioFile then
                   [Toast ''Error Processing File'' ''An error occurred while processing your file'' ''destructive'']
                 else [])) @
            [SetIsProcessing False])"

text \<open>The calls of \<open>onFileSelected\<close> among the events, with their arguments.\<close>

fun selected_files :: "upload_event list \<Rightarrow> AudioFile list" where
  "selected_files [] = []"
| "selected_files (OnFileSelected a # es) = a # selected_files es"
| "selected_files (_ # es) = selected_files es"

fun toasts :: "upload_event list \<Rightarrow> string list" where
  "toasts [] = []"
| "toasts (Toast title _ _ # es) = title # toasts es"
| "toasts (_ # es) = toasts es"

section \<open>\<open>components/TranscriptProcessor.tsx\<close>: topics\<close>

text \<open>
  A topic as the service (or the mock fallback) hands it over, untyped: the
  text fields may be absent, and \<open>start\<close>/\<open>end\<close> are checked with \<open>typeof\<close>.
\<close>

record RawTopic =
  rt_topic :: "string option"
  rt_title :: "string option"
  rt_description :: "string option"
  rt_start :: jsval
  rt_end :: jsval

text \<open>
  How the request \<open>fetch(...).then(res => res.json()).then(data => data.topics)\<close>
  ends: it rejects with an error (network error, body that is not JSON, \<open>data\<close>
  without properties), or \<open>data.topics\<close> is falsy (\<open>undefined\<close>, \<open>null\<close>, ...; kept
  by how the value prints), or it is an array of topics.
\<close>

datatype topics_response = RequestRejects string | TopicsFalsy string | TopicsArray "RawTopic list"

definition mock_topics :: "RawTopic list" where
  "mock_topics =
     [\<lparr>rt_topic = Some ''Introduction'', rt_title = None,
       rt_description = Some ''Overview of the lecture content'',
       rt_start = JNumber (Fin 0), rt_end = JNumber (Fin 60)\<rparr>,
      \<lparr>rt_topic = Some ''Main Concepts'', rt_title = None,
       rt_description = Some ''Discussion of key theoretical concepts'',
       rt_start = JNumber (Fin 61), rt_end = JNumber (Fin 180)\<rparr>,
      \<lparr>rt_topic = Some ''Practical Applications'', rt_title = None,
       rt_description = Some ''Real-world applications of the material'',
       rt_start = JNumber (Fin 181), rt_end = JNumber (Fin 300)\<rparr>]"

text \<open>
  The \<open>try\<close> block of \<open>extractTopics\<close>, given how the service answers a posted
  text: the topics it returns, or (\<open>Inl\<close>) the message of the error it throws.
\<close>

definition request_topics :: "(string \<Rightarrow> topics_response) \<Rightarrow> string \<Rightarrow> string + RawTopic list" where
  "request_topics fetch transcript' =
     (case fetch transcript' of
        RequestRejects m \<Rightarrow> Inl m
      | TopicsFalsy response \<Rightarrow> Inl (''Topic extraction failed: '' @ response)
      | TopicsArray response \<Rightarrow> Inr response)"

text \<open>
  \<open>extractTopics(transcript)\<close>: what the call ends with (\<open>Inr\<close> the topics it
  resolves to, \<open>Inl\<close> the message of an error it rejects with), and the texts
  posted to the service on the way.
\<close>

definition extractTopics :: "(string \<Rightarrow> topics_response) \<Rightarrow> string \<Rightarrow> (string + RawTopic list) \<times> string list" where
  "extractTopics fetch transcript' =
     (if transcript' = [] then (Inr [], [])
      else
        (case request_topics fetch transcript' of
           Inr response \<Rightarrow> (Inr response, [transcript'])
         | Inl error \<Rightarrow> (Inr mock_topics, [transcript'])))"

text \<open>
  The failure of the request as the specification words it, to be compared
  with what \<open>extractTopics\<close> treats as one: the fetch rejects or yields no
  topics.
\<close>

definition spec_request_fails :: "topics_response \<Rightarrow> bool" where
  "spec_request_fails r =
     (case r of RequestRejects _ \<Rightarrow> True | TopicsFalsy _ \<Rightarrow> True | TopicsArray ts \<Rightarrow> ts = [])"

text \<open>\<open>xs.map((x, index) => f(x, index))\<close>.\<close>

definition map_index :: "('a \<Rightarrow> nat \<Rightarrow> 'b) \<Rightarrow> 'a list \<Rightarrow> 'b list" where
  "map_index f xs = map (\<lambda>(x, index). f x index) (zip xs [0..<length xs])"

text \<open>The \<open>.filter(x => x !== null)\<close> that follows a map to index-or-null.\<close>

definition filter_not_null :: "'a option list \<Rightarrow> 'a list" where
  "filter_not_null xs = map the (filter (\<lambda>x. x \<noteq> None) xs)"

text \<open>The callback of \<open>extractedTopics.map\<close> in \<open>processAudio\<close>.\<close>

definition formatTopic :: "TranscriptionSegment list \<Rightarrow> RawTopic \<Rightarrow> nat \<Rightarrow> Topic" where
  "formatTopic transcriptSegments topic index =
     (let topicStart = (case rt_start topic of JNumber n \<Rightarrow> n | _ \<Rightarrow> Fin 0);
          topicEnd = (case rt_end topic of JNumber n \<Rightarrow> n | _ \<Rightarrow> Fin 0);
          topicSegments = filter_not_null
            (map_index (\<lambda>segment segmentIndex.
                 if js_ge (seg_end segment) topicStart \<and> js_le (seg_start segment) topicEnd
                 then Some segmentIndex else None)
               transcriptSegments)
      in \<lparr>topic_id = toString_nat index,
          topic_title = or_default (rt_topic topic)
                          (or_default (rt_title topic) (''Topic '' @ toString_nat (index + 1))),
          topic_start = topicStart,
          topic_end = topicEnd,
          topic_description = or_default (rt_description topic) ''No description available'',
          topic_segments = topicSegments\<rparr>)"

definition formattedTopics :: "TranscriptionSegment list \<Rightarrow> RawTopic list \<Rightarrow> Topic list" where
  "formattedTopics transcriptSegments extractedTopics =
     map_index (formatTopic transcriptSegments) extractedTopics"

section \<open>\<open>components/SegmentedTranscript.tsx\<close> and \<open>components/TopicNavigator.tsx\<close>\<close>

definition filteredSegments :: "string \<Rightarrow> TranscriptionSegment list \<Rightarrow> TranscriptionSegment list" where
  "filteredSegments searchQuery segments =
     (if searchQuery \<noteq> [] then
        filter (\<lambda>segment. js_includes (toLowerCase (seg_text segment)) (toLowerCase searchQuery))
          segments
      else segments)"

text \<open>\<open>transcriptData\<close> is \<open>None\<close> when nothing is stored under the key.\<close>

definition filteredTopics :: "string \<Rightarrow> TranscriptionResponse option \<Rightarrow> Topic list" where
  "filteredTopics searchQuery transcriptData =
     (if searchQuery = [] then
        (case transcriptData of None \<Rightarrow> [] | Some d \<Rightarrow> topics d)
      else
        (let query = toLowerCase searchQuery
         in case transcriptData of
              None \<Rightarrow> []
            | Some d \<Rightarrow>
                filter (\<lambda>topic. js_includes (toLowerCase (topic_title topic)) query \<or>
                                js_includes (toLowerCase (topic_description topic)) query)
                  (topics d)))"

text \<open>
  The \<open>Map<string, Topic[]>\<close> of \<open>categorizeTopics\<close>, as the list of its entries
  in insertion order.
\<close>

type_synonym categories = "(string \<times> Topic list) list"

definition map_has :: "categories \<Rightarrow> string \<Rightarrow> bool" where
  "map_has m k = (k \<in> set (map fst m))"

text \<open>\<open>m.set(k, [])\<close> for a key that is not in the map: a new last entry.\<close>

definition map_set_empty :: "categories \<Rightarrow> string \<Rightarrow> categories" where
  "map_set_empty m k = m @ [(k, [])]"

text \<open>\<open>m.get(k)?.push(v)\<close>.\<close>

definition map_push :: "categories \<Rightarrow> string \<Rightarrow> Topic \<Rightarrow> categories" where
  "map_push m k v = map (\<lambda>(k', vs). if k' = k then (k', vs @ [v]) else (k', vs)) m"

text \<open>
  The category of a topic, from its title. The \<open>Topic\<close> interface makes the
  title a string; the code also provides for a title that is missing (\<open>None\<close>).
\<close>

definition category_of_title :: "string option \<Rightarrow> string" where
  "category_of_title topic_title' =
     (let title = or_default topic_title' ''''
      in or_else (toLowerCase (split_space_first title)) ''general'')"

definition category_of :: "Topic \<Rightarrow> string" where
  "category_of topic = category_of_title (Some (topic_title topic))"

definition categorize_step :: "categories \<Rightarrow> Topic \<Rightarrow> categories" where
  "categorize_step m topic =
     (let category = category_of topic;
          m1 = (if \<not> map_has m category then map_set_empty m category else m)
      in map_push m1 category topic)"

definition categorizeTopics :: "Topic list \<Rightarrow> categories" where
  "categorizeTopics ts = foldl categorize_step [] ts"

text \<open>
  The category key as the specification words it, to be compared with
  \<open>category_of\<close>: the lowercased first space-separated word of the title, or
  \<open>general\<close> when the title is empty.
\<close>

definition first_word :: "string \<Rightarrow> string" where
  "first_word s = takeWhile (\<lambda>c. c \<noteq> CHR '' '') (dropWhile (\<lambda>c. c = CHR '' '') s)"

definition spec_category :: "Topic \<Rightarrow> string" where
  "spec_category topic =
     (if topic_title topic = [] then ''general'' else toLowerCase (first_word (topic_title topic)))"

section \<open>Persistence of the result\<close>

text \<open>
  The value \<open>processAudio\<close> hands to \<open>setTranscriptData\<close>, as the JavaScript
  object it is: objects as lists of properties in the order they are written,
  arrays as lists, numbers as above.
\<close>

datatype js = JsNull | JsBool bool | JsNum jsnum | JsStr string | JsArr "js list"
  | JsObj "(string \<times> js) list"

definition js_of_segment :: "TranscriptionSegment \<Rightarrow> js" where
  "js_of_segment s =
     JsObj [(''id'', JsNum (seg_id s)), (''start'', JsNum (seg_start s)),
            (''end'', JsNum (seg_end s)), (''text'', JsStr (seg_text s))]"

definition js_of_topic :: "Topic \<Rightarrow> js" where
  "js_of_topic t =
     JsObj [(''id'', JsStr (topic_id t)), (''title'', JsStr (topic_title t)),
            (''description'', JsStr (topic_description t)),
            (''start'', JsNum (topic_start t)), (''end'', JsNum (topic_end t)),
            (''segments'', JsArr (map (\<lambda>i. JsNum (Fin (real i))) (topic_segments t)))]"

definition js_of_response :: "TranscriptionResponse \<Rightarrow> js" where
  "js_of_response r =
     JsObj [(''transcript'',
               JsObj [(''text'', JsStr (transcript_text (transcript r))),
                      (''segments'', JsArr (map js_of_segment (transcript_segments (transcript r))))]),
            (''topics'', JsArr (map js_of_topic (topics r)))]"

text \<open>
  Modelled from the spec: the serialized form of a value in the browser's
  key-value storage. The hook that writes and reads it
  (\<open>hooks/use-local-storage\<close>) is not among the sources; \<open>processAudio\<close> reads the
  key back with \<open>JSON.parse\<close>, so the stored text is JSON. The text is kept as
  the tree it denotes. \<open>JSON.stringify\<close> writes a finite number as a number
  and any other number as \<open>null\<close>; \<open>JSON.parse\<close> builds the value of a tree.
\<close>

datatype json = JsonNull | JsonBool bool | JsonNum real | JsonStr string | JsonArr "json list"
  | JsonObj "(string \<times> json) list"

fun JSON_stringify :: "js \<Rightarrow> json" where
  "JSON_stringify JsNull = JsonNull"
| "JSON_stringify (JsBool b) = JsonBool b"
| "JSON_stringify (JsNum n) = (case n of Fin x \<Rightarrow> JsonNum x | _ \<Rightarrow> JsonNull)"
| "JSON_stringify (JsStr s) = JsonStr s"
| "JSON_stringify (JsArr xs) = JsonArr (map JSON_stringify xs)"
| "JSON_stringify (JsObj kvs) = JsonObj (map (map_prod id JSON_stringify) kvs)"

fun JSON_parse :: "json \<Rightarrow> js" where
  "JSON_parse JsonNull = JsNull"
| "JSON_parse (JsonBool b) = JsBool b"
| "JSON_parse (JsonNum x) = JsNum (Fin x)"
| "JSON_parse (JsonStr s) = JsStr s"
| "JSON_parse (JsonArr xs) = JsArr (map JSON_parse xs)"
| "JSON_parse (JsonObj kvs) = JsObj (map (map_prod id JSON_parse) kvs)"

text \<open>
  Modelled from the spec: the hook \<open>useLocalStorage(key, initialValue)\<close>, which
  is not among the sources. Its setter serializes the value into the storage
  under the key; the value it hands out on a (re)load is the stored one,
  deserialized, or the initial value when the key holds nothing.
\<close>

type_synonym storage = "string \<Rightarrow> json option"

definition setValue :: "string \<Rightarrow> js \<Rightarrow> storage \<Rightarrow> storage" where
  "setValue key v store = store(key \<mapsto> JSON_stringify v)"

definition storedValue :: "string \<Rightarrow> js \<Rightarrow> storage \<Rightarrow> js" where
  "storedValue key initialValue store =
     (case store key of None \<Rightarrow> initialValue | Some item \<Rightarrow> JSON_parse item)"

text \<open>
  \<open>setTranscriptData(transcriptData)\<close> in \<open>processAudio\<close>, and \<open>transcriptData\<close> in
  \<open>TopicNavigator\<close>: both come from \<open>useLocalStorage("lectureTranscript", null)\<close>.
\<close>

definition setTranscriptData :: "TranscriptionResponse \<Rightarrow> storage \<Rightarrow> storage" where
  "setTranscriptData transcriptData store =
     setValue ''lectureTranscript'' (js_of_response transcriptData) store"

definition navigator_transcriptData :: "storage \<Rightarrow> js" where
  "navigator_transcriptData store = storedValue ''lectureTranscript'' JsNull store"

text \<open>The numbers of a result (segment ids, starts and ends of segments and topics) are finite.\<close>

fun finite_number :: "jsnum \<Rightarrow> bool" where
  "finite_number (Fin _) = True"
| "finite_number _ = False"

definition finite_numbers :: "TranscriptionResponse \<Rightarrow> bool" where
  "finite_numbers r =
     (list_all (\<lambda>s. finite_number (seg_id s) \<and> finite_number (seg_start s) \<and> finite_number (seg_end s))
        (transcript_segments (transcript r))
      \<and> list_all (\<lambda>t. finite_number (topic_start t) \<and> finite_number (topic_end t)) (topics r))"

section \<open>Chunking partitions the file\<close>

lemma chunk_loop_eq:
  "chunk_loop f cs tot i chunks =
     chunks @ map (\<lambda>j. new_File [slice f (j * cs) (min (j * cs + cs) (file_size f)) (file_type f)]
                       (file_name f @ ''.part'' @ toString_nat (j + 1)) (file_type f)) [i..<tot]"
proof (induction f cs tot i chunks rule: chunk_loop.induct)
  case (1 f chunkSize totalChunks i chunks)
  show ?case
  proof (cases "i < totalChunks")
    case True
    then have upt: "[i..<totalChunks] = i # [Suc i..<totalChunks]"
      by (simp add: upt_conv_Cons)
    show ?thesis
      apply (subst chunk_loop.simps)
      apply (simp only: True if_True Let_def)
      apply (subst 1[OF True refl refl refl])
      apply (simp add: upt)
      done
  next
    case False
    then show ?thesis by (subst chunk_loop.simps) simp
  qed
qed

lemma below_ceiling:
  assumes "0 < cs" and "i < nat \<lceil>real n / real cs\<rceil>"
  shows "i * cs < n"
proof -
  from assms(2) have "int i < \<lceil>real n / real cs\<rceil>" by linarith
  then have "real i < real n / real cs" by (simp add: less_ceiling_iff)
  with assms(1) have "real i * real cs < real n" by (simp add: pos_less_divide_eq)
  then have "real (i * cs) < real n" by simp
  then show ?thesis by linarith
qed

lemma ceiling_covers:
  assumes "0 < cs"
  shows "n \<le> nat \<lceil>real n / real cs\<rceil> * cs"
proof -
  define c where "c = \<lceil>real n / real cs\<rceil>"
  have up: "real n / real cs \<le> real_of_int c"
    unfolding c_def by (rule le_of_int_ceiling)
  have "(0::real) \<le> real n / real cs" by simp
  with up have "0 \<le> c" by linarith
  then have nat_c: "real (nat c) = real_of_int c" by simp
  from assms up have "real n \<le> real_of_int c * real cs"
    by (simp add: pos_divide_le_eq)
  then have "real n \<le> real (nat c * cs)"
    by (simp add: nat_c)
  then have "n \<le> nat c * cs" by linarith
  then show ?thesis by (simp add: c_def)
qed

lemma take_drop_nth:
  assumes "b \<le> length xs"
  shows "take (b - a) (drop a xs) = map (\<lambda>k. xs ! k) [a..<b]"
proof (rule nth_equalityI)
  show "length (take (b - a) (drop a xs)) = length (map (\<lambda>k. xs ! k) [a..<b])"
    using assms by simp
next
  fix i
  assume "i < length (take (b - a) (drop a xs))"
  then have "i < b - a" by simp
  then show "take (b - a) (drop a xs) ! i = map (\<lambda>k. xs ! k) [a..<b] ! i"
    using assms by simp
qed

lemma take_clamped: "take (min (a + c) (length xs) - a) (drop a xs) = take c (drop a xs)"
  by (cases "a + c \<le> length xs") (auto simp: min_def)

lemma concat_chunks:
  "concat (map (\<lambda>j. take (min (j * cs + cs) (length xs) - j * cs) (drop (j * cs) xs)) [0..<n])
     = take (n * cs) xs"
proof (induction n)
  case 0
  show ?case by simp
next
  case (Suc n)
  have "take (Suc n * cs) xs = take (n * cs) xs @ take cs (drop (n * cs) xs)"
    by (simp only: mult_Suc add.commute[of cs] take_add)
  with Suc show ?case by (simp add: take_clamped)
qed

lemma chunk_bytes:
  assumes "j * cs < file_size f"
  shows "file_bytes (new_File [slice f (j * cs) (min (j * cs + cs) (file_size f)) ty] nm ty) =
           take (min (j * cs + cs) (length (file_bytes f)) - j * cs) (drop (j * cs) (file_bytes f))"
  using assms by (simp add: new_File_def slice_def Let_def file_size_def min_absorb1)

text \<open>
  Claim C10. For every file and every positive chunk size, \<open>chunkAudioFile\<close>
  returns, and returns exactly \<open>ceil(file.size / chunkSize)\<close> chunks; chunk \<open>i\<close>
  holds the bytes of the file at the positions from \<open>i * chunkSize\<close> up to (not
  including) \<open>min((i + 1) * chunkSize, file.size)\<close>, is at most \<open>chunkSize\<close> bytes
  long, is exactly \<open>chunkSize\<close> bytes long unless it is the last one, and has
  the MIME type of the file; the chunks, one after the other, are the file
  (no gap, no overlap).
\<close>

theorem chunkAudioFile_partition:
  assumes "0 < chunkSize"
  shows "\<exists>chunks. chunkAudioFile f (Some chunkSize) = Some chunks
     \<and> int (length chunks) = \<lceil>real (file_size f) / real chunkSize\<rceil>
     \<and> (\<forall>i < length chunks.
          file_bytes (chunks ! i) =
            map (\<lambda>k. file_bytes f ! k) [i * chunkSize ..< min ((i + 1) * chunkSize) (file_size f)]
        \<and> file_size (chunks ! i) \<le> chunkSize
        \<and> (i + 1 < length chunks \<longrightarrow> file_size (chunks ! i) = chunkSize)
        \<and> file_type (chunks ! i) = file_type f)
     \<and> concat (map file_bytes chunks) = file_bytes f"
proof -
  define tot where "tot = nat \<lceil>real (file_size f) / real chunkSize\<rceil>"
  define g where "g = (\<lambda>j. new_File
      [slice f (j * chunkSize) (min (j * chunkSize + chunkSize) (file_size f)) (file_type f)]
      (file_name f @ ''.part'' @ toString_nat (j + 1)) (file_type f))"
  define chunks where "chunks = map g [0..<tot]"
  have below: "j * chunkSize < file_size f" if "j < tot" for j
    using that assms unfolding tot_def by (intro below_ceiling)
  have bytes: "file_bytes (g j) =
      take (min (j * chunkSize + chunkSize) (length (file_bytes f)) - j * chunkSize)
        (drop (j * chunkSize) (file_bytes f))" if "j < tot" for j
    unfolding g_def using below[OF that] by (rule chunk_bytes)
  have ret: "chunkAudioFile f (Some chunkSize) = Some chunks"
    using assms by (simp add: chunkAudioFile_def chunk_loop_eq chunks_def g_def tot_def)
  have "(0::real) \<le> real (file_size f) / real chunkSize" by simp
  then have "0 \<le> \<lceil>real (file_size f) / real chunkSize\<rceil>"
    unfolding zero_le_ceiling by linarith
  then have len: "int (length chunks) = \<lceil>real (file_size f) / real chunkSize\<rceil>"
    by (simp add: chunks_def tot_def)
  have each: "file_bytes (chunks ! i) =
            map (\<lambda>k. file_bytes f ! k) [i * chunkSize ..< min ((i + 1) * chunkSize) (file_size f)]
        \<and> file_size (chunks ! i) \<le> chunkSize
        \<and> (i + 1 < length chunks \<longrightarrow> file_size (chunks ! i) = chunkSize)
        \<and> file_type (chunks ! i) = file_type f" if i: "i < length chunks" for i
  proof -
    from i have it: "i < tot" by (simp add: chunks_def)
    then have ci: "chunks ! i = g i" by (simp add: chunks_def)
    have b1: "file_bytes (chunks ! i) =
        map (\<lambda>k. file_bytes f ! k) [i * chunkSize ..< min ((i + 1) * chunkSize) (file_size f)]"
      unfolding ci bytes[OF it]
      by (simp add: take_drop_nth file_size_def add.commute)
    have b2: "file_size (chunks ! i) \<le> chunkSize"
      unfolding file_size_def b1 by simp
    have b3: "file_size (chunks ! i) = chunkSize" if "i + 1 < length chunks"
    proof -
      from that have "i + 1 < tot" by (simp add: chunks_def)
      then have "(i + 1) * chunkSize < file_size f" by (rule below)
      then show ?thesis unfolding file_size_def b1 by (simp add: file_size_def)
    qed
    have b4: "file_type (chunks ! i) = file_type f"
      unfolding ci g_def by (simp add: new_File_def)
    from b1 b2 b3 b4 show ?thesis by blast
  qed
  have "map file_bytes chunks =
      map (\<lambda>j. take (min (j * chunkSize + chunkSize) (length (file_bytes f)) - j * chunkSize)
                 (drop (j * chunkSize) (file_bytes f))) [0..<tot]"
    unfolding chunks_def by (simp add: bytes)
  then have "concat (map file_bytes chunks) = take (tot * chunkSize) (file_bytes f)"
    by (simp only: concat_chunks)
  moreover have "length (file_bytes f) \<le> tot * chunkSize"
    using ceiling_covers[OF assms, of "file_size f"] by (simp add: tot_def file_size_def)
  ultimately have whole: "concat (map file_bytes chunks) = file_bytes f" by simp
  from ret len each whole show ?thesis by blast
qed

text \<open>A five-byte file in chunks of two bytes: three chunks, the last of one byte.\<close>

theorem chunkAudioFile_partition_witness:
  "(0::nat) < 2 \<and>
   (\<exists>chunks. chunkAudioFile
        \<lparr>file_name = ''a.mp3'', file_bytes = [1, 2, 3, 4, 5], file_type = ''audio/mpeg''\<rparr>
        (Some 2) = Some chunks
      \<and> int (length chunks) = 3
      \<and> map file_bytes chunks = [[1, 2], [3, 4], [5]]
      \<and> concat (map file_bytes chunks) = [1, 2, 3, 4, 5])"
proof -
  have pos: "(0::nat) < 2" by simp
  have ev: "chunkAudioFile
      \<lparr>file_name = ''a.mp3'', file_bytes = [1, 2, 3, 4, 5], file_type = ''audio/mpeg''\<rparr>
      (Some 2) =
    Some [\<lparr>file_name = ''a.mp3.part1'', file_bytes = [1, 2], file_type = ''audio/mpeg''\<rparr>,
     \<lparr>file_name = ''a.mp3.part2'', file_bytes = [3, 4], file_type = ''audio/mpeg''\<rparr>,
     \<lparr>file_name = ''a.mp3.part3'', file_bytes = [5], file_type = ''audio/mpeg''\<rparr>]"
    by code_simp
  from chunkAudioFile_partition[OF pos,
      of "\<lparr>file_name = ''a.mp3'', file_bytes = [1, 2, 3, 4, 5], file_type = ''audio/mpeg''\<rparr>"]
  show ?thesis unfolding ev by (simp add: file_size_def)
qed

section \<open>The playback controller\<close>

lemma loadError_loadAudio:
  "loadError s \<noteq> Some [] \<Longrightarrow> loadError (snd (loadAudio env fileArg s)) \<noteq> Some []"
  by (simp add: loadAudio_def await_element_def Let_def split: option.splits decode_outcome.splits element_load.splits)

lemma loadError_play_buffer:
  "loadError (snd (play_buffer env st d s)) = loadError s"
  by (simp add: play_buffer_def Let_def split: option.splits buffer_outcome.splits)

lemma loadError_play_element:
  "loadError (snd (play_element env st s)) = loadError s"
  by (simp add: play_element_def split: element_outcome.splits)

lemma loadError_stop: "loadError (stop s) = loadError s"
  by (simp add: stop_def)

lemma loadError_playSegment:
  "loadError (snd (playSegment env startArg durationArg s)) = loadError s"
proof -
  have pb: "loadError s2 = loadError s1" if "play_buffer env st d s1 = (r, s2)" for st d s1 r s2
    using loadError_play_buffer[of env st d s1] that by simp
  have pe: "loadError s2 = loadError s1" if "play_element env st s1 = (r, s2)" for st s1 r s2
    using loadError_play_element[of env st s1] that by simp
  show ?thesis
    by (auto simp: playSegment_def Let_def loadError_stop dest!: pb pe
             split: jsval.splits prod.splits option.splits)
qed

lemma reachable_loadError: "reachable s \<Longrightarrow> loadError s \<noteq> Some []"
proof (induction rule: reachable.induct)
  case (constructed init)
  show ?case by (simp add: new_AudioProcessor_def split: option.splits)
next
  case (after_loadAudio s lenv fileArg)
  from after_loadAudio.IH show ?case by (rule loadError_loadAudio)
next
  case (after_playSegment s env startArg durationArg)
  then show ?case by (simp add: loadError_playSegment)
next
  case (after_stop s)
  then show ?case by (simp add: loadError_stop)
next
  case (after_cleanup s)
  then show ?case by (simp add: cleanup_def loadError_stop)
next
  case (after_element_error s)
  show ?case by (simp add: on_element_error_def)
qed

text \<open>
  Claim C6. In every state the processor can be in: while \<open>isLoaded\<close> is false,
  \<open>playSegment\<close> rejects, with the stored \<open>loadError\<close> as message when there is
  one and with \<open>Audio not loaded properly\<close> otherwise; when \<open>isLoaded\<close> is true
  and the start time is not a number or is NaN, it rejects with
  \<open>Invalid start time\<close>. In both cases the state is the one before the call.
\<close>

theorem playSegment_guards:
  assumes "reachable s"
  shows "(\<not> isLoaded s \<longrightarrow>
            playSegment env startArg durationArg s =
              (Rejected (case loadError s of Some m \<Rightarrow> m | None \<Rightarrow> ''Audio not loaded properly''), s))
       \<and> (isLoaded s \<and> (\<not> typeof_number startArg \<or> startArg = JNumber NaN) \<longrightarrow>
            playSegment env startArg durationArg s = (Rejected ''Invalid start time'', s))"
proof -
  from assms have ne: "loadError s \<noteq> Some []" by (rule reachable_loadError)
  have a: "playSegment env startArg durationArg s =
      (Rejected (case loadError s of Some m \<Rightarrow> m | None \<Rightarrow> ''Audio not loaded properly''), s)"
    if "\<not> isLoaded s"
    using that ne by (cases "loadError s") (simp_all add: playSegment_def or_else_def)
  have b: "playSegment env startArg durationArg s = (Rejected ''Invalid start time'', s)"
    if "isLoaded s" and "\<not> typeof_number startArg \<or> startArg = JNumber NaN"
    using that by (cases startArg) (auto simp: playSegment_def)
  from a b show ?thesis by blast
qed


text \<open>
  A processor whose element failed to load rejects with the stored message; a
  loaded one rejects a NaN start time.
\<close>

theorem playSegment_guards_witness:
  "playSegment \<lparr>nearest_double = Fin, bufferPath = BufferOk, elementPath = ElementOk\<rparr> (JNumber (Fin 3)) None
     (snd (loadAudio \<lparr>createObjectURL = (\<lambda>f. ''blob:1''), loadThrows = None,
         decodeAudioData = (\<lambda>f. Decoded 10), elementEvent = ElementError\<rparr>
       (Some \<lparr>file_name = ''a.mp3'', file_bytes = [1], file_type = ''audio/mpeg''\<rparr>)
       (new_AudioProcessor None)))
   = (Rejected ''Error loading audio: Failed to load audio file'',
      snd (loadAudio \<lparr>createObjectURL = (\<lambda>f. ''blob:1''), loadThrows = None,
         decodeAudioData = (\<lambda>f. Decoded 10), elementEvent = ElementError\<rparr>
       (Some \<lparr>file_name = ''a.mp3'', file_bytes = [1], file_type = ''audio/mpeg''\<rparr>)
       (new_AudioProcessor None)))
   \<and> playSegment \<lparr>nearest_double = Fin, bufferPath = BufferOk, elementPath = ElementOk\<rparr> (JNumber NaN) None
     (snd (loadAudio \<lparr>createObjectURL = (\<lambda>f. ''blob:1''), loadThrows = None,
         decodeAudioData = (\<lambda>f. Decoded 10), elementEvent = CanPlayThrough\<rparr>
       (Some \<lparr>file_name = ''a.mp3'', file_bytes = [1], file_type = ''audio/mpeg''\<rparr>)
       (new_AudioProcessor None)))
   = (Rejected ''Invalid start time'',
      snd (loadAudio \<lparr>createObjectURL = (\<lambda>f. ''blob:1''), loadThrows = None,
         decodeAudioData = (\<lambda>f. Decoded 10), elementEvent = CanPlayThrough\<rparr>
       (Some \<lparr>file_name = ''a.mp3'', file_bytes = [1], file_type = ''audio/mpeg''\<rparr>)
       (new_AudioProcessor None)))"
proof -
  let ?f = "\<lparr>file_name = ''a.mp3'', file_bytes = [1], file_type = ''audio/mpeg''\<rparr>"
  let ?env = "\<lparr>nearest_double = Fin, bufferPath = BufferOk, elementPath = ElementOk\<rparr>"
  let ?s = "snd (loadAudio \<lparr>createObjectURL = (\<lambda>f. ''blob:1''), loadThrows = None,
         decodeAudioData = (\<lambda>f. Decoded 10), elementEvent = ElementError\<rparr>
       (Some ?f) (new_AudioProcessor None))"
  let ?t = "snd (loadAudio \<lparr>createObjectURL = (\<lambda>f. ''blob:1''), loadThrows = None,
         decodeAudioData = (\<lambda>f. Decoded 10), elementEvent = CanPlayThrough\<rparr>
       (Some ?f) (new_AudioProcessor None))"
  have rs: "reachable ?s" and rt: "reachable ?t" by (intro reachable.intros)+
  have nl: "\<not> isLoaded ?s" by (simp add: loadAudio_def await_element_def Let_def)
  have le: "loadError ?s = Some ''Error loading audio: Failed to load audio file''"
    by (simp add: loadAudio_def await_element_def Let_def or_else_def)
  have lt: "isLoaded ?t" by (simp add: loadAudio_def await_element_def Let_def)
  from playSegment_guards[OF rs, of ?env "JNumber (Fin 3)" None] nl
  have first: "playSegment ?env (JNumber (Fin 3)) None ?s =
      (Rejected ''Error loading audio: Failed to load audio file'', ?s)"
    unfolding le by simp
  from playSegment_guards[OF rt, of ?env "JNumber NaN" None] lt
  have second: "playSegment ?env (JNumber NaN) None ?t = (Rejected ''Invalid start time'', ?t)"
    by simp
  from first second show ?thesis by (rule conjI)
qed

lemma js_gt_Fin [simp]: "js_gt (Fin a) (Fin b) = (b < a)"
  by (simp add: js_gt_def)

lemma start_in_range:
  assumes "0 \<le> bd" and "t \<noteq> NaN"
  shows "\<exists>x. (if js_gt (if js_lt t (Fin 0) then Fin 0 else t) (Fin bd) then Fin 0
              else (if js_lt t (Fin 0) then Fin 0 else t)) = Fin x \<and> 0 \<le> x \<and> x \<le> bd"
  using assms by (cases t) (auto simp: js_gt_def)

text \<open>
  Claim C1. For a loaded processor with a decoded buffer (of a duration that is
  not negative) and a call of \<open>playSegment\<close> with a start time that is a number
  and not NaN, when the buffer source node can be created: the node's
  \<open>start\<close> call gets an offset between 0 and the buffer's duration, which is 0
  for a negative start time and for a start time above the buffer's duration
  and the given start time otherwise; the duration it gets is
  \<open>Math.min(duration, bufferDuration - offset)\<close>, the difference being the one
  the browser computes (rounded to a double, however it rounds), with
  \<open>duration\<close> 120 when the caller omits it. That duration never exceeds the
  computed difference; and it never exceeds the buffer's duration, given
  that rounding keeps the order of the reals and leaves the buffer's duration,
  a double, as it is.
\<close>

theorem playSegment_buffer_clamp:
  assumes loaded: "isLoaded s"
    and buf: "audioBuffer s = Some bufferDuration"
    and nonneg: "0 \<le> bufferDuration"
    and num: "startTime \<noteq> NaN"
    and avail: "\<forall>m. bufferPath env \<noteq> CreateThrows m"
  shows "\<exists>offset node.
           sourceNode (snd (playSegment env (JNumber startTime) durationArg s)) = Some node
         \<and> sn_offset node = Fin offset
         \<and> 0 \<le> offset \<and> offset \<le> bufferDuration
         \<and> (js_lt startTime (Fin 0) \<longrightarrow> offset = 0)
         \<and> (js_gt startTime (Fin bufferDuration) \<longrightarrow> offset = 0)
         \<and> (\<not> js_lt startTime (Fin 0) \<and> \<not> js_gt startTime (Fin bufferDuration)
                \<longrightarrow> startTime = Fin offset)
         \<and> sn_duration node =
              Math_min (case durationArg of None \<Rightarrow> Fin 120 | Some d \<Rightarrow> d)
                       (js_sub (nearest_double env) (Fin bufferDuration) (Fin offset))
         \<and> \<not> js_gt (sn_duration node)
                (js_sub (nearest_double env) (Fin bufferDuration) (Fin offset))
         \<and> ((\<forall>x y. x \<le> y \<longrightarrow> js_le (nearest_double env x) (nearest_double env y))
              \<and> nearest_double env bufferDuration = Fin bufferDuration
              \<longrightarrow> \<not> js_gt (sn_duration node) (Fin bufferDuration))"
proof -
  define t1 where "t1 = (if js_lt startTime (Fin 0) then Fin 0 else startTime)"
  define t2 where "t2 = (if js_gt t1 (Fin bufferDuration) then Fin 0 else t1)"
  define d where "d = (case durationArg of None \<Rightarrow> Fin 120 | Some d \<Rightarrow> d)"
  have "\<exists>x. t2 = Fin x \<and> 0 \<le> x \<and> x \<le> bufferDuration"
    unfolding t2_def t1_def by (rule start_in_range[OF nonneg num])
  then obtain x where x: "t2 = Fin x" "0 \<le> x" "x \<le> bufferDuration"
    by blast
  define m where "m = js_sub (nearest_double env) (Fin bufferDuration) (Fin x)"
  define node where "node = \<lparr>sn_offset = t2, sn_duration = Math_min d m,
    sn_started = (bufferPath env = BufferOk)\<rparr>"
  have sb: "audioBuffer (stop s) = Some bufferDuration"
    using buf by (simp add: stop_def)
  have pb: "sourceNode (snd (play_buffer env t2 d (stop s))) = Some node"
    using sb avail
    by (cases "bufferPath env") (auto simp: play_buffer_def Let_def node_def m_def x(1))
  have pe: "sourceNode (snd (play_element env st s')) = sourceNode s'" for st s'
    by (simp add: play_element_def split: element_outcome.splits)
  have "sourceNode (snd (playSegment env (JNumber startTime) durationArg s)) = Some node"
    using loaded num sb pb pe[of t2 "snd (play_buffer env t2 d (stop s))"]
    by (auto simp: playSegment_def Let_def t1_def[symmetric] t2_def[symmetric] d_def[symmetric]
             split: prod.splits option.splits)
  moreover have "sn_offset node = Fin x" by (simp add: node_def x)
  moreover have "js_lt startTime (Fin 0) \<longrightarrow> x = 0"
    using x(1) by (auto simp: t1_def t2_def split: if_splits)
  moreover have "js_gt startTime (Fin bufferDuration) \<longrightarrow> x = 0"
    using x(1) nonneg by (cases startTime) (auto simp: t1_def t2_def js_gt_def split: if_splits)
  moreover have "\<not> js_lt startTime (Fin 0) \<and> \<not> js_gt startTime (Fin bufferDuration) \<longrightarrow> startTime = Fin x"
    using x(1) by (auto simp: t1_def t2_def split: if_splits)
  moreover have "sn_duration node = Math_min d m"
    by (simp add: node_def)
  moreover have "\<not> js_gt (sn_duration node) m"
    by (cases d; cases m) (auto simp: node_def Math_min_def js_gt_def)
  moreover have "\<not> js_gt (sn_duration node) (Fin bufferDuration)"
    if mono: "\<forall>x y. x \<le> y \<longrightarrow> js_le (nearest_double env x) (nearest_double env y)"
      and same: "nearest_double env bufferDuration = Fin bufferDuration"
  proof -
    from x(2) have "bufferDuration - x \<le> bufferDuration" by simp
    with mono have "js_le (nearest_double env (bufferDuration - x)) (nearest_double env bufferDuration)"
      by blast
    then have "js_le m (Fin bufferDuration)" by (simp add: m_def same)
    then show ?thesis
      by (cases d; cases m) (auto simp: node_def Math_min_def js_gt_def)
  qed
  ultimately show ?thesis using x(2,3) unfolding d_def m_def by blast
qed

text \<open>
  Eight seconds into a ten-second buffer, no duration given, the difference
  10 - 8 being exact: two seconds are played.
\<close>

theorem playSegment_buffer_clamp_witness:
  "isLoaded \<lparr>audioElement = \<lparr>el_src = Some ''blob:1'', el_currentTime = Fin 0, el_paused = True\<rparr>,
       audioBuffer = Some 10, sourceNode = None, isLoaded = True, loadError = None,
       objectUrl = Some ''blob:1''\<rparr>
   \<and> (0::real) \<le> 10 \<and> Fin 8 \<noteq> NaN
   \<and> (\<forall>m. bufferPath \<lparr>nearest_double = Fin, bufferPath = BufferOk, elementPath = ElementOk\<rparr>
          \<noteq> CreateThrows m)
   \<and> js_le (nearest_double \<lparr>nearest_double = Fin, bufferPath = BufferOk, elementPath = ElementOk\<rparr> 2)
        (nearest_double \<lparr>nearest_double = Fin, bufferPath = BufferOk, elementPath = ElementOk\<rparr> 10)
   \<and> nearest_double \<lparr>nearest_double = Fin, bufferPath = BufferOk, elementPath = ElementOk\<rparr> 10 = Fin 10
   \<and> sourceNode (snd (playSegment
        \<lparr>nearest_double = Fin, bufferPath = BufferOk, elementPath = ElementOk\<rparr> (JNumber (Fin 8)) None
        \<lparr>audioElement = \<lparr>el_src = Some ''blob:1'', el_currentTime = Fin 0, el_paused = True\<rparr>,
         audioBuffer = Some 10, sourceNode = None, isLoaded = True, loadError = None,
         objectUrl = Some ''blob:1''\<rparr>))
      = Some \<lparr>sn_offset = Fin 8, sn_duration = Fin 2, sn_started = True\<rparr>"
  using playSegment_buffer_clamp[of
      "\<lparr>audioElement = \<lparr>el_src = Some ''blob:1'', el_currentTime = Fin 0, el_paused = True\<rparr>,
        audioBuffer = Some 10, sourceNode = None, isLoaded = True, loadError = None,
        objectUrl = Some ''blob:1''\<rparr>"
      10 "Fin 8" "\<lparr>nearest_double = Fin, bufferPath = BufferOk, elementPath = ElementOk\<rparr>" None]
  by (simp add: playSegment_def Let_def stop_def play_buffer_def play_element_def Math_min_def js_gt_def)

text \<open>
  The start time 0.1 (the double \<open>3602879701896397 / 2^55\<close>) on a ten-second
  buffer: when the difference is rounded to the double next to it,
  \<open>5573204538870989 / 2^49\<close>, that double is the duration passed.
\<close>

lemma playSegment_rounded_difference:
  "sourceNode (snd (playSegment
      \<lparr>nearest_double =
         (\<lambda>x. if x = 10 - 3602879701896397 / 36028797018963968
              then Fin (5573204538870989 / 562949953421312) else Fin x),
       bufferPath = BufferOk, elementPath = ElementOk\<rparr>
      (JNumber (Fin (3602879701896397 / 36028797018963968))) None
      \<lparr>audioElement = \<lparr>el_src = Some ''blob:1'', el_currentTime = Fin 0, el_paused = True\<rparr>,
       audioBuffer = Some 10, sourceNode = None, isLoaded = True, loadError = None,
       objectUrl = Some ''blob:1''\<rparr>))
   = Some \<lparr>sn_offset = Fin (3602879701896397 / 36028797018963968),
           sn_duration = Fin (5573204538870989 / 562949953421312), sn_started = True\<rparr>"
  by (simp add: playSegment_def Let_def stop_def play_buffer_def play_element_def Math_min_def js_gt_def)

text \<open>
  Claim C4. \<open>loadAudio\<close> resolves with \<open>isLoaded\<close> true when decoding fails and
  the element fires \<open>canplaythrough\<close>, and \<open>loadError\<close> then holds the decode
  failure. When the element path of \<open>playSegment\<close> fails (for a loaded processor
  and a valid start time): with a buffer whose source node was started the
  call resolves and the node is kept; without a buffer it rejects with the
  element's error and there is no source node. When the buffer path itself
  fails, it is its error that the call rejects with.
\<close>

theorem element_path_is_fallback:
  "(loadThrows lenv = None \<and> decodeAudioData lenv file = DecodeFails dm \<and> elementEvent lenv = CanPlayThrough \<longrightarrow>
      fst (loadAudio lenv (Some file) s0) = Resolved
      \<and> isLoaded (snd (loadAudio lenv (Some file) s0))
      \<and> loadError (snd (loadAudio lenv (Some file) s0)) =
           Some (''Failed to decode audio: '' @ or_else dm ''Unknown error''))
   \<and> (isLoaded s \<and> startTime \<noteq> NaN \<and> element_failure (elementPath env) = Some em \<longrightarrow>
        (audioBuffer s \<noteq> None \<and> bufferPath env = BufferOk \<longrightarrow>
           fst (playSegment env (JNumber startTime) durationArg s) = Resolved
           \<and> (\<exists>node. sourceNode (snd (playSegment env (JNumber startTime) durationArg s)) = Some node
                  \<and> sn_started node))
      \<and> (audioBuffer s = None \<longrightarrow>
           fst (playSegment env (JNumber startTime) durationArg s) =
             Rejected (''Failed to play audio: '' @ or_else em ''Unknown error'')
           \<and> sourceNode (snd (playSegment env (JNumber startTime) durationArg s)) = None))
   \<and> (isLoaded s \<and> startTime \<noteq> NaN \<and> audioBuffer s \<noteq> None
        \<and> buffer_failure (bufferPath env) = Some bm \<longrightarrow>
        fst (playSegment env (JNumber startTime) durationArg s) =
          Rejected (''Failed to play audio: '' @ or_else bm ''Unknown error''))"
proof -
  have load: "fst (loadAudio lenv (Some file) s0) = Resolved
      \<and> isLoaded (snd (loadAudio lenv (Some file) s0))
      \<and> loadError (snd (loadAudio lenv (Some file) s0)) =
           Some (''Failed to decode audio: '' @ or_else dm ''Unknown error'')"
    if "loadThrows lenv = None" "decodeAudioData lenv file = DecodeFails dm" "elementEvent lenv = CanPlayThrough"
    using that by (simp add: loadAudio_def await_element_def Let_def)
  have with_buffer: "fst (playSegment env (JNumber startTime) durationArg s) = Resolved
           \<and> (\<exists>node. sourceNode (snd (playSegment env (JNumber startTime) durationArg s)) = Some node
                  \<and> sn_started node)"
    if "isLoaded s" "startTime \<noteq> NaN" "element_failure (elementPath env) = Some em"
       "audioBuffer s \<noteq> None" "bufferPath env = BufferOk"
    using that
    by (cases "elementPath env")
       (auto simp: playSegment_def Let_def stop_def play_buffer_def play_element_def element_failure_def)
  have without_buffer: "fst (playSegment env (JNumber startTime) durationArg s) =
             Rejected (''Failed to play audio: '' @ or_else em ''Unknown error'')
           \<and> sourceNode (snd (playSegment env (JNumber startTime) durationArg s)) = None"
    if "isLoaded s" "startTime \<noteq> NaN" "element_failure (elementPath env) = Some em"
       "audioBuffer s = None"
    using that
    by (cases "elementPath env")
       (auto simp: playSegment_def Let_def stop_def play_buffer_def play_element_def element_failure_def)
  have buffer_fails: "fst (playSegment env (JNumber startTime) durationArg s) =
          Rejected (''Failed to play audio: '' @ or_else bm ''Unknown error'')"
    if "isLoaded s" "startTime \<noteq> NaN" "audioBuffer s \<noteq> None"
       "buffer_failure (bufferPath env) = Some bm"
    using that
    by (cases "bufferPath env")
       (auto simp: playSegment_def Let_def stop_def play_buffer_def buffer_failure_def)
  from load with_buffer without_buffer buffer_fails show ?thesis by blast
qed


text \<open>
  A file that does not decode but plays in the element; then a rejected
  \<open>play()\<close>, once with a ten-second buffer and once without a buffer.
\<close>

theorem element_path_is_fallback_witness:
  "loadAudio \<lparr>createObjectURL = (\<lambda>f. ''blob:1''), loadThrows = None,
        decodeAudioData = (\<lambda>f. DecodeFails ''bad data''), elementEvent = CanPlayThrough\<rparr>
      (Some \<lparr>file_name = ''a.mp3'', file_bytes = [1], file_type = ''audio/mpeg''\<rparr>)
      (new_AudioProcessor None)
    = (Resolved,
       \<lparr>audioElement = \<lparr>el_src = Some ''blob:1'', el_currentTime = Fin 0, el_paused = True\<rparr>,
        audioBuffer = None, sourceNode = None, isLoaded = True,
        loadError = Some ''Failed to decode audio: bad data'', objectUrl = Some ''blob:1''\<rparr>)
   \<and> fst (playSegment \<lparr>nearest_double = Fin, bufferPath = BufferOk, elementPath = PlayRejects ''NotAllowedError''\<rparr>
          (JNumber (Fin 8)) None
          \<lparr>audioElement = \<lparr>el_src = Some ''blob:1'', el_currentTime = Fin 0, el_paused = True\<rparr>,
           audioBuffer = Some 10, sourceNode = None, isLoaded = True, loadError = None,
           objectUrl = Some ''blob:1''\<rparr>) = Resolved
   \<and> fst (playSegment \<lparr>nearest_double = Fin, bufferPath = BufferOk, elementPath = PlayRejects ''NotAllowedError''\<rparr>
          (JNumber (Fin 8)) None
          \<lparr>audioElement = \<lparr>el_src = Some ''blob:1'', el_currentTime = Fin 0, el_paused = True\<rparr>,
           audioBuffer = None, sourceNode = None, isLoaded = True,
           loadError = Some ''Failed to decode audio: bad data'', objectUrl = Some ''blob:1''\<rparr>)
       = Rejected ''Failed to play audio: NotAllowedError''"
  using element_path_is_fallback[of
      "\<lparr>createObjectURL = (\<lambda>f. ''blob:1''), loadThrows = None,
        decodeAudioData = (\<lambda>f. DecodeFails ''bad data''), elementEvent = CanPlayThrough\<rparr>"
      "\<lparr>file_name = ''a.mp3'', file_bytes = [1], file_type = ''audio/mpeg''\<rparr>"
      "''bad data''" "new_AudioProcessor None"
      "\<lparr>audioElement = \<lparr>el_src = Some ''blob:1'', el_currentTime = Fin 0, el_paused = True\<rparr>,
           audioBuffer = None, sourceNode = None, isLoaded = True,
           loadError = Some ''Failed to decode audio: bad data'', objectUrl = Some ''blob:1''\<rparr>"
      "Fin 8" "\<lparr>nearest_double = Fin, bufferPath = BufferOk, elementPath = PlayRejects ''NotAllowedError''\<rparr>"
      "''NotAllowedError''" None "[]"]
  by (simp add: loadAudio_def await_element_def new_AudioProcessor_def playSegment_def Let_def stop_def play_buffer_def
        play_element_def Math_min_def js_gt_def or_else_def element_failure_def buffer_failure_def)

section \<open>The uploader and the topic request\<close>

lemma js_includes_sublist: "js_includes s sub = sublist sub s"
  by (induction s) (auto simp: sublist_Cons_right)

text \<open>
  Claim C5. A file whose MIME type does not contain \<open>audio\<close>, or whose size is
  above \<open>100 * 1024 * 1024\<close> bytes, is rejected: one toast, and no call of
  \<open>onFileSelected\<close>. For any other file \<open>onFileSelected\<close> is called exactly
  once, with the record of the file's name, size and type, the URL that
  \<open>URL.createObjectURL\<close> made for it, and the file itself.
\<close>

theorem processFile_validates:
  "((\<not> sublist ''audio'' (file_type file) \<or> file_size file > 100 * 1024 * 1024) \<longrightarrow>
       selected_files (processFile env (Some file)) = []
     \<and> length (toasts (processFile env (Some file))) = 1)
   \<and> (sublist ''audio'' (file_type file) \<and> file_size file \<le> 100 * 1024 * 1024 \<longrightarrow>
       selected_files (processFile env (Some file)) =
         [\<lparr>af_name = file_name file, af_size = file_size file, af_type = file_type file,
           af_url = URL_createObjectURL env file, af_file = Some file\<rparr>])"
  by (auto simp: processFile_def js_includes_sublist max_upload_size_def Let_def)

text \<open>
  A three-byte \<open>audio/mpeg\<close> file is handed on; a \<open>video/mp4\<close> file is not.
\<close>

theorem processFile_validates_witness:
  "sublist ''audio'' (file_type \<lparr>file_name = ''a.mp3'', file_bytes = [1, 2, 3], file_type = ''audio/mpeg''\<rparr>)
   \<and> file_size \<lparr>file_name = ''a.mp3'', file_bytes = [1, 2, 3], file_type = ''audio/mpeg''\<rparr> \<le> 100 * 1024 * 1024
   \<and> selected_files (processFile
         \<lparr>URL_createObjectURL = (\<lambda>f. ''blob:1''), onFileSelected_throws = (\<lambda>a. False)\<rparr>
         (Some \<lparr>file_name = ''a.mp3'', file_bytes = [1, 2, 3], file_type = ''audio/mpeg''\<rparr>)) =
       [\<lparr>af_name = ''a.mp3'', af_size = 3, af_type = ''audio/mpeg'', af_url = ''blob:1'',
         af_file = Some \<lparr>file_name = ''a.mp3'', file_bytes = [1, 2, 3], file_type = ''audio/mpeg''\<rparr>\<rparr>]
   \<and> \<not> sublist ''audio'' (file_type \<lparr>file_name = ''a.mp4'', file_bytes = [1, 2, 3], file_type = ''video/mp4''\<rparr>)
   \<and> selected_files (processFile
         \<lparr>URL_createObjectURL = (\<lambda>f. ''blob:1''), onFileSelected_throws = (\<lambda>a. False)\<rparr>
         (Some \<lparr>file_name = ''a.mp4'', file_bytes = [1, 2, 3], file_type = ''video/mp4''\<rparr>)) = []"
proof -
  let ?env = "\<lparr>URL_createObjectURL = (\<lambda>f. ''blob:1''), onFileSelected_throws = (\<lambda>a. False)\<rparr>"
  let ?f = "\<lparr>file_name = ''a.mp3'', file_bytes = [1, 2, 3], file_type = ''audio/mpeg''\<rparr>"
  let ?g = "\<lparr>file_name = ''a.mp4'', file_bytes = [1, 2, 3], file_type = ''video/mp4''\<rparr>"
  have a: "sublist ''audio'' (file_type ?f)"
    unfolding js_includes_sublist[symmetric] by simp
  have b: "file_size ?f \<le> 100 * 1024 * 1024" by (simp add: file_size_def)
  have d: "\<not> sublist ''audio'' (file_type ?g)"
    unfolding js_includes_sublist[symmetric] by simp
  from processFile_validates[of ?f ?env] a b
  have ok: "selected_files (processFile ?env (Some ?f)) =
       [\<lparr>af_name = ''a.mp3'', af_size = 3, af_type = ''audio/mpeg'', af_url = ''blob:1'', af_file = Some ?f\<rparr>]"
    by (simp add: file_size_def)
  from processFile_validates[of ?g ?env] d
  have rej: "selected_files (processFile ?env (Some ?g)) = []" by blast
  from a b ok d rej show ?thesis by blast
qed

text \<open>
  Claim C3, amended. For a non-empty transcript, when the request rejects or
  the answer carries no topics value (\<open>data.topics\<close> is falsy), \<open>extractTopics\<close>
  does not reject: it resolves to the three mock topics Introduction (0 to
  60), Main Concepts (61 to 180) and Practical Applications (181 to 300).
  An answer with an array of topics, the empty array too, is resolved to as
  it is. For the empty transcript it resolves to the empty list and nothing
  is posted to the service.
\<close>

theorem extractTopics_fallback:
  "(transcript' \<noteq> [] \<and> ((\<exists>e. fetch transcript' = RequestRejects e) \<or> (\<exists>v. fetch transcript' = TopicsFalsy v)) \<longrightarrow>
      (\<exists>topics. fst (extractTopics fetch transcript') = Inr topics
         \<and> map (\<lambda>t. (rt_topic t, rt_start t, rt_end t)) topics =
             [(Some ''Introduction'', JNumber (Fin 0), JNumber (Fin 60)),
              (Some ''Main Concepts'', JNumber (Fin 61), JNumber (Fin 180)),
              (Some ''Practical Applications'', JNumber (Fin 181), JNumber (Fin 300))]))
   \<and> (transcript' \<noteq> [] \<and> fetch transcript' = TopicsArray response \<longrightarrow>
        extractTopics fetch transcript' = (Inr response, [transcript']))
   \<and> extractTopics fetch [] = (Inr [], [])"
  by (auto simp: extractTopics_def request_topics_def mock_topics_def)

text \<open>
  A request that fails with \<open>Failed to fetch\<close>.
\<close>

theorem extractTopics_fallback_witness:
  "fst (extractTopics (\<lambda>t. RequestRejects ''Failed to fetch'') ''hello'') =
     Inr [\<lparr>rt_topic = Some ''Introduction'', rt_title = None,
       rt_description = Some ''Overview of the lecture content'',
       rt_start = JNumber (Fin 0), rt_end = JNumber (Fin 60)\<rparr>,
      \<lparr>rt_topic = Some ''Main Concepts'', rt_title = None,
       rt_description = Some ''Discussion of key theoretical concepts'',
       rt_start = JNumber (Fin 61), rt_end = JNumber (Fin 180)\<rparr>,
      \<lparr>rt_topic = Some ''Practical Applications'', rt_title = None,
       rt_description = Some ''Real-world applications of the material'',
       rt_start = JNumber (Fin 181), rt_end = JNumber (Fin 300)\<rparr>]
   \<and> extractTopics (\<lambda>t. RequestRejects ''Failed to fetch'') [] = (Inr [], [])"
  using extractTopics_fallback[of "''hello''" "\<lambda>t. RequestRejects ''Failed to fetch''"]
  by (simp add: extractTopics_def request_topics_def mock_topics_def)

text \<open>
  Claim C3 as it is stated fails for a request that succeeds with an empty
  array of topics: it yields no topics, and what is returned is that empty
  array, not the mock topics.
\<close>

theorem extractTopics_counterexample:
  "spec_request_fails (TopicsArray [])
   \<and> fst (extractTopics (\<lambda>t. TopicsArray []) ''hello'') = Inr []
   \<and> fst (extractTopics (\<lambda>t. TopicsArray []) ''hello'') \<noteq> Inr mock_topics"
  by (simp add: spec_request_fails_def extractTopics_def request_topics_def mock_topics_def)

section \<open>Topic spans and transcript segments\<close>

lemma map_index_upt: "map_index f xs = map (\<lambda>i. f (xs ! i) i) [0..<length xs]"
  unfolding map_index_def by (rule nth_equalityI) simp_all

lemma filter_not_null_map:
  "filter_not_null (map (\<lambda>i. if P i then Some i else None) is) = filter P is"
  by (induction "is") (simp_all add: filter_not_null_def)

lemma overlapping_indices:
  "filter_not_null (map_index (\<lambda>segment segmentIndex. if P segment then Some segmentIndex else None) xs)
     = filter (\<lambda>i. P (xs ! i)) [0..<length xs]"
  by (simp add: map_index_upt filter_not_null_map)

lemma formatTopic_segments:
  "topic_segments (formatTopic segs raw k) =
     filter (\<lambda>i. js_ge (seg_end (segs ! i)) (topic_start (formatTopic segs raw k))
               \<and> js_le (seg_start (segs ! i)) (topic_end (formatTopic segs raw k)))
       [0..<length segs]"
  by (simp add: formatTopic_def Let_def overlapping_indices)

lemma formatTopic_start:
  "topic_start (formatTopic segs raw k) = (case rt_start raw of JNumber n \<Rightarrow> n | _ \<Rightarrow> Fin 0)"
  "topic_end (formatTopic segs raw k) = (case rt_end raw of JNumber n \<Rightarrow> n | _ \<Rightarrow> Fin 0)"
  by (simp_all add: formatTopic_def Let_def)

lemma sorted_wrt_filter_upt: "sorted_wrt (<) (filter P [0..<n])"
  by (rule sorted_wrt_filter) (simp add: sorted_wrt_upt) 

text \<open>
  Claim C2. \<open>formattedTopics\<close> has one topic per extracted topic. Its start is
  the extracted \<open>start\<close> when that is a number and 0 otherwise, and likewise
  its end. Its \<open>segments\<close> field holds exactly the indices \<open>i\<close> of the transcript
  segments with \<open>segments[i].end >= start\<close> and \<open>segments[i].start <= end\<close>, in
  strictly increasing order.
\<close>

theorem formattedTopics_segments:
  "length (formattedTopics segs extracted) = length extracted
   \<and> (\<forall>k < length extracted.
        (\<forall>n. rt_start (extracted ! k) = JNumber n \<longrightarrow> topic_start (formattedTopics segs extracted ! k) = n)
      \<and> (\<not> typeof_number (rt_start (extracted ! k)) \<longrightarrow> topic_start (formattedTopics segs extracted ! k) = Fin 0)
      \<and> (\<forall>n. rt_end (extracted ! k) = JNumber n \<longrightarrow> topic_end (formattedTopics segs extracted ! k) = n)
      \<and> (\<not> typeof_number (rt_end (extracted ! k)) \<longrightarrow> topic_end (formattedTopics segs extracted ! k) = Fin 0)
      \<and> set (topic_segments (formattedTopics segs extracted ! k)) =
           {i. i < length segs
               \<and> js_ge (seg_end (segs ! i)) (topic_start (formattedTopics segs extracted ! k))
               \<and> js_le (seg_start (segs ! i)) (topic_end (formattedTopics segs extracted ! k))}
      \<and> sorted_wrt (<) (topic_segments (formattedTopics segs extracted ! k)))"
proof -
  have len: "length (formattedTopics segs extracted) = length extracted"
    by (simp add: formattedTopics_def map_index_upt)
  have nth: "formattedTopics segs extracted ! k = formatTopic segs (extracted ! k) k"
    if "k < length extracted" for k
    using that by (simp add: formattedTopics_def map_index_upt)
  have st: "(\<forall>n. rt_start raw = JNumber n \<longrightarrow> topic_start (formatTopic segs raw k) = n)
      \<and> (\<not> typeof_number (rt_start raw) \<longrightarrow> topic_start (formatTopic segs raw k) = Fin 0)
      \<and> (\<forall>n. rt_end raw = JNumber n \<longrightarrow> topic_end (formatTopic segs raw k) = n)
      \<and> (\<not> typeof_number (rt_end raw) \<longrightarrow> topic_end (formatTopic segs raw k) = Fin 0)" for raw k
    by (cases "rt_start raw"; cases "rt_end raw") (simp_all add: formatTopic_start)
  have segs: "set (topic_segments (formatTopic segs raw k)) =
           {i. i < length segs
               \<and> js_ge (seg_end (segs ! i)) (topic_start (formatTopic segs raw k))
               \<and> js_le (seg_start (segs ! i)) (topic_end (formatTopic segs raw k))}" for raw k
    unfolding formatTopic_segments by auto
  have srt: "sorted_wrt (<) (topic_segments (formatTopic segs raw k))" for raw k
    unfolding formatTopic_segments by (rule sorted_wrt_filter_upt)
  from len nth st segs srt show ?thesis by simp
qed


text \<open>
  Three segments of five seconds; a topic from 4 to 6 overlaps the first two,
  a topic without numeric bounds (0 to 0) the first one.
\<close>

theorem formattedTopics_segments_witness:
  "(1::nat) < length [\<lparr>rt_topic = Some ''Sets'', rt_title = None, rt_description = None,
          rt_start = JNumber (Fin 4), rt_end = JNumber (Fin 6)\<rparr>,
        \<lparr>rt_topic = None, rt_title = None, rt_description = None,
          rt_start = JUndefined, rt_end = JString ''12''\<rparr>]
   \<and> map topic_segments (formattedTopics
       [\<lparr>seg_id = Fin 0, seg_start = Fin 0, seg_end = Fin 5, seg_text = ''a''\<rparr>,
        \<lparr>seg_id = Fin 1, seg_start = Fin 5, seg_end = Fin 10, seg_text = ''b''\<rparr>,
        \<lparr>seg_id = Fin 2, seg_start = Fin 10, seg_end = Fin 15, seg_text = ''c''\<rparr>]
       [\<lparr>rt_topic = Some ''Sets'', rt_title = None, rt_description = None,
          rt_start = JNumber (Fin 4), rt_end = JNumber (Fin 6)\<rparr>,
        \<lparr>rt_topic = None, rt_title = None, rt_description = None,
          rt_start = JUndefined, rt_end = JString ''12''\<rparr>]) = [[0, 1], [0]]
   \<and> topic_start (formattedTopics
       [\<lparr>seg_id = Fin 0, seg_start = Fin 0, seg_end = Fin 5, seg_text = ''a''\<rparr>,
        \<lparr>seg_id = Fin 1, seg_start = Fin 5, seg_end = Fin 10, seg_text = ''b''\<rparr>,
        \<lparr>seg_id = Fin 2, seg_start = Fin 10, seg_end = Fin 15, seg_text = ''c''\<rparr>]
       [\<lparr>rt_topic = Some ''Sets'', rt_title = None, rt_description = None,
          rt_start = JNumber (Fin 4), rt_end = JNumber (Fin 6)\<rparr>,
        \<lparr>rt_topic = None, rt_title = None, rt_description = None,
          rt_start = JUndefined, rt_end = JString ''12''\<rparr>] ! 1) = Fin 0"
proof -
  let ?segs = "[\<lparr>seg_id = Fin 0, seg_start = Fin 0, seg_end = Fin 5, seg_text = ''a''\<rparr>,
        \<lparr>seg_id = Fin 1, seg_start = Fin 5, seg_end = Fin 10, seg_text = ''b''\<rparr>,
        \<lparr>seg_id = Fin 2, seg_start = Fin 10, seg_end = Fin 15, seg_text = ''c''\<rparr>]"
  let ?raw = "[\<lparr>rt_topic = Some ''Sets'', rt_title = None, rt_description = None,
          rt_start = JNumber (Fin 4), rt_end = JNumber (Fin 6)\<rparr>,
        \<lparr>rt_topic = None, rt_title = None, rt_description = None,
          rt_start = JUndefined, rt_end = JString ''12''\<rparr>]"
  have one: "(1::nat) < length ?raw" by simp
  have ev: "map topic_segments (formattedTopics ?segs ?raw) = [[0, 1], [0]]"
    by (simp add: formattedTopics_def map_index_def formatTopic_def filter_not_null_def
          js_ge_def Let_def upt_rec)
  from formattedTopics_segments[of ?segs ?raw] one
  have "\<not> typeof_number (rt_start (?raw ! 1)) \<longrightarrow> topic_start (formattedTopics ?segs ?raw ! 1) = Fin 0"
    by blast
  then have st: "topic_start (formattedTopics ?segs ?raw ! 1) = Fin 0" by simp
  from one ev st show ?thesis by blast
qed

section \<open>Search and categories\<close>

text \<open>
  Claim C8. The filtered transcript is the list of the segments whose
  lowercased text contains the lowercased query as a contiguous run, in their
  original order (a subsequence of the segments), and it is all segments for
  the empty query; the filtered topics are the stored topics whose lowercased
  title or lowercased description contains the lowercased query (none when
  nothing is stored).
\<close>

theorem search_filters:
  "filteredSegments searchQuery segments =
      filter (\<lambda>segment. sublist (toLowerCase searchQuery) (toLowerCase (seg_text segment))) segments
   \<and> (searchQuery = [] \<longrightarrow> filteredSegments searchQuery segments = segments)
   \<and> subseq (filteredSegments searchQuery segments) segments
   \<and> filteredTopics searchQuery (Some d) =
      filter (\<lambda>topic. sublist (toLowerCase searchQuery) (toLowerCase (topic_title topic))
                    \<or> sublist (toLowerCase searchQuery) (toLowerCase (topic_description topic)))
        (topics d)
   \<and> (searchQuery = [] \<longrightarrow> filteredTopics searchQuery (Some d) = topics d)
   \<and> filteredTopics searchQuery None = []"
proof -
  have lower_empty: "toLowerCase [] = []" by (simp add: toLowerCase_def)
  have segs: "filteredSegments searchQuery segments =
      filter (\<lambda>segment. sublist (toLowerCase searchQuery) (toLowerCase (seg_text segment))) segments"
    by (cases "searchQuery = []") (simp_all add: filteredSegments_def js_includes_sublist lower_empty)
  have all: "filteredSegments searchQuery segments = segments" if "searchQuery = []"
    using that by (simp add: filteredSegments_def)
  have sub: "subseq (filteredSegments searchQuery segments) segments"
    unfolding segs by simp
  have tops: "filteredTopics searchQuery (Some d) =
      filter (\<lambda>topic. sublist (toLowerCase searchQuery) (toLowerCase (topic_title topic))
                    \<or> sublist (toLowerCase searchQuery) (toLowerCase (topic_description topic)))
        (topics d)"
    by (cases "searchQuery = []") (simp_all add: filteredTopics_def js_includes_sublist lower_empty Let_def)
  have none: "filteredTopics searchQuery None = []"
    by (simp add: filteredTopics_def Let_def)
  have all_topics: "filteredTopics searchQuery (Some d) = topics d" if "searchQuery = []"
    using that by (simp add: filteredTopics_def)
  from segs all sub tops all_topics none show ?thesis by blast
qed

text \<open>
  The query \<open>SET\<close> finds \<open>Sets and maps\<close> and \<open>A subset\<close>, in that order.
\<close>

theorem search_filters_witness:
  "filteredSegments ''SET''
     [\<lparr>seg_id = Fin 0, seg_start = Fin 0, seg_end = Fin 5, seg_text = ''Sets and maps''\<rparr>,
      \<lparr>seg_id = Fin 1, seg_start = Fin 5, seg_end = Fin 10, seg_text = ''Proofs''\<rparr>,
      \<lparr>seg_id = Fin 2, seg_start = Fin 10, seg_end = Fin 15, seg_text = ''A subset''\<rparr>]
   = [\<lparr>seg_id = Fin 0, seg_start = Fin 0, seg_end = Fin 5, seg_text = ''Sets and maps''\<rparr>,
      \<lparr>seg_id = Fin 2, seg_start = Fin 10, seg_end = Fin 15, seg_text = ''A subset''\<rparr>]
   \<and> subseq (filteredSegments ''SET''
     [\<lparr>seg_id = Fin 0, seg_start = Fin 0, seg_end = Fin 5, seg_text = ''Sets and maps''\<rparr>,
      \<lparr>seg_id = Fin 1, seg_start = Fin 5, seg_end = Fin 10, seg_text = ''Proofs''\<rparr>,
      \<lparr>seg_id = Fin 2, seg_start = Fin 10, seg_end = Fin 15, seg_text = ''A subset''\<rparr>])
     [\<lparr>seg_id = Fin 0, seg_start = Fin 0, seg_end = Fin 5, seg_text = ''Sets and maps''\<rparr>,
      \<lparr>seg_id = Fin 1, seg_start = Fin 5, seg_end = Fin 10, seg_text = ''Proofs''\<rparr>,
      \<lparr>seg_id = Fin 2, seg_start = Fin 10, seg_end = Fin 15, seg_text = ''A subset''\<rparr>]"
proof -
  let ?segs = "[\<lparr>seg_id = Fin 0, seg_start = Fin 0, seg_end = Fin 5, seg_text = ''Sets and maps''\<rparr>,
      \<lparr>seg_id = Fin 1, seg_start = Fin 5, seg_end = Fin 10, seg_text = ''Proofs''\<rparr>,
      \<lparr>seg_id = Fin 2, seg_start = Fin 10, seg_end = Fin 15, seg_text = ''A subset''\<rparr>]"
  have ev: "filteredSegments ''SET'' ?segs =
     [\<lparr>seg_id = Fin 0, seg_start = Fin 0, seg_end = Fin 5, seg_text = ''Sets and maps''\<rparr>,
      \<lparr>seg_id = Fin 2, seg_start = Fin 10, seg_end = Fin 15, seg_text = ''A subset''\<rparr>]"
    by code_simp
  from search_filters[of "''SET''" ?segs] have "subseq (filteredSegments ''SET'' ?segs) ?segs"
    by blast
  with ev show ?thesis by (rule conjI)
qed

lemma map_push_map:
  "map_push (map (\<lambda>k'. (k', G k')) ks) k v = map (\<lambda>k'. (k', if k' = k then G k' @ [v] else G k')) ks"
  by (induction ks) (auto simp: map_push_def)

lemma categorize_step_shape:
  assumes "distinct ks" and "set ks = category_of ` set ps"
    and "m = map (\<lambda>k. (k, filter (\<lambda>t. category_of t = k) ps)) ks"
  shows "\<exists>ks'. distinct ks' \<and> set ks' = category_of ` set (ps @ [t])
           \<and> categorize_step m t = map (\<lambda>k. (k, filter (\<lambda>t. category_of t = k) (ps @ [t]))) ks'"
proof (cases "category_of t \<in> set ks")
  case True
  have "categorize_step m t = map (\<lambda>k. (k, filter (\<lambda>t. category_of t = k) (ps @ [t]))) ks"
    using True by (auto simp: categorize_step_def Let_def map_has_def assms(3) comp_def map_push_map)
  moreover have "set ks = category_of ` set (ps @ [t])"
    using True assms(2) by auto
  ultimately show ?thesis using assms(1) by blast
next
  case False
  then have "\<forall>u\<in>set ps. category_of u \<noteq> category_of t"
    using assms(2) by (metis imageI)
  then have none: "filter (\<lambda>u. category_of u = category_of t) ps = []"
    by (simp add: filter_empty_conv)
  have "categorize_step m t =
      map (\<lambda>k. (k, filter (\<lambda>t. category_of t = k) (ps @ [t]))) (ks @ [category_of t])"
    using False none
    by (auto simp: categorize_step_def Let_def map_has_def assms(3) comp_def map_push_map
          map_set_empty_def map_push_def)
  moreover have "set (ks @ [category_of t]) = category_of ` set (ps @ [t])"
    using assms(2) by auto
  moreover have "distinct (ks @ [category_of t])"
    using False assms(1) by simp
  ultimately show ?thesis by blast
qed

lemma categorize_shape:
  "\<exists>ks. distinct ks \<and> set ks = category_of ` set ts
        \<and> categorizeTopics ts = map (\<lambda>k. (k, filter (\<lambda>t. category_of t = k) ts)) ks"
proof (induction ts rule: rev_induct)
  case Nil
  show ?case by (simp add: categorizeTopics_def)
next
  case (snoc t ts)
  then obtain ks where ks: "distinct ks" "set ks = category_of ` set ts"
    "categorizeTopics ts = map (\<lambda>k. (k, filter (\<lambda>t. category_of t = k) ts)) ks"
    by blast
  have "categorizeTopics (ts @ [t]) = categorize_step (categorizeTopics ts) t"
    by (simp add: categorizeTopics_def)
  with categorize_step_shape[OF ks, of t] show ?case by simp
qed

lemma mset_groups:
  "distinct ks \<Longrightarrow> category_of ` set ts \<subseteq> set ks \<Longrightarrow>
   mset (concat (map (\<lambda>k. filter (\<lambda>t. category_of t = k) ts) ks)) = mset ts"
proof (induction ks arbitrary: ts)
  case Nil
  then show ?case by simp
next
  case (Cons k ks)
  let ?rest = "filter (\<lambda>t. category_of t \<noteq> k) ts"
  have same: "map (\<lambda>k'. filter (\<lambda>t. category_of t = k') ts) ks =
              map (\<lambda>k'. filter (\<lambda>t. category_of t = k') ?rest) ks"
  proof (rule map_cong[OF refl])
    fix k' assume "k' \<in> set ks"
    with Cons.prems(1) have "k' \<noteq> k" by auto
    then show "filter (\<lambda>t. category_of t = k') ts = filter (\<lambda>t. category_of t = k') ?rest"
      by (auto intro: filter_cong)
  qed
  have "category_of ` set ?rest \<subseteq> set ks" using Cons.prems(2) by auto
  with Cons.IH[of ?rest] Cons.prems(1)
  have "mset (concat (map (\<lambda>k'. filter (\<lambda>t. category_of t = k') ?rest) ks)) = mset ?rest"
    by simp
  then show ?case
    by (simp add: same)
qed


text \<open>
  Claim C9, amended. The keys of \<open>categorizeTopics\<close> are pairwise different;
  the group of a key is not empty and is the input list filtered by that
  key, so its topics keep their input order; every input topic is in the
  group of its own key, and in no other; all groups together hold the input
  topics, each as often as the input does. The key of a topic is the
  lowercased text before the first space of its title, and \<open>general\<close> when
  that text is empty (the title is empty or begins with a space) and when
  the title is missing.
\<close>

theorem categorizeTopics_partition:
  "distinct (map fst (categorizeTopics ts))
   \<and> (\<forall>(k, g) \<in> set (categorizeTopics ts). g \<noteq> [] \<and> g = filter (\<lambda>t. category_of t = k) ts)
   \<and> (\<forall>t \<in> set ts. \<exists>g. (category_of t, g) \<in> set (categorizeTopics ts) \<and> t \<in> set g)
   \<and> mset (concat (map snd (categorizeTopics ts))) = mset ts
   \<and> (\<forall>t \<in> set ts. category_of t =
         (if takeWhile (\<lambda>c. c \<noteq> CHR '' '') (topic_title t) = [] then ''general''
          else toLowerCase (takeWhile (\<lambda>c. c \<noteq> CHR '' '') (topic_title t))))
   \<and> category_of_title None = ''general''"
proof -
  from categorize_shape[of ts] obtain ks where ks: "distinct ks" "set ks = category_of ` set ts"
    and shape: "categorizeTopics ts = map (\<lambda>k. (k, filter (\<lambda>t. category_of t = k) ts)) ks"
    by blast
  have keys: "map fst (categorizeTopics ts) = ks"
    unfolding shape by (simp add: comp_def)
  have groups: "map snd (categorizeTopics ts) = map (\<lambda>k. filter (\<lambda>t. category_of t = k) ts) ks"
    unfolding shape by (simp add: comp_def)
  have c1: "distinct (map fst (categorizeTopics ts))"
    unfolding keys by (rule ks(1))
  have c2: "\<forall>(k, g) \<in> set (categorizeTopics ts). g \<noteq> [] \<and> g = filter (\<lambda>t. category_of t = k) ts"
  proof -
    have "filter (\<lambda>t. category_of t = k) ts \<noteq> []" if "k \<in> set ks" for k
      using that ks(2) by (auto simp: filter_empty_conv)
    then show ?thesis unfolding shape by auto
  qed
  have c3: "\<forall>t \<in> set ts. \<exists>g. (category_of t, g) \<in> set (categorizeTopics ts) \<and> t \<in> set g"
  proof
    fix t assume t: "t \<in> set ts"
    then have "category_of t \<in> set ks" using ks(2) by simp
    then have "(category_of t, filter (\<lambda>u. category_of u = category_of t) ts) \<in> set (categorizeTopics ts)"
      unfolding shape by auto
    moreover have "t \<in> set (filter (\<lambda>u. category_of u = category_of t) ts)"
      using t by simp
    ultimately show "\<exists>g. (category_of t, g) \<in> set (categorizeTopics ts) \<and> t \<in> set g"
      by blast
  qed
  have c4: "mset (concat (map snd (categorizeTopics ts))) = mset ts"
    unfolding groups using ks by (intro mset_groups) simp_all
  have lower_empty: "toLowerCase s = [] \<longleftrightarrow> s = []" for s
    by (simp add: toLowerCase_def)
  have c5: "category_of t =
         (if takeWhile (\<lambda>c. c \<noteq> CHR '' '') (topic_title t) = [] then ''general''
          else toLowerCase (takeWhile (\<lambda>c. c \<noteq> CHR '' '') (topic_title t)))" for t
    by (simp add: category_of_def category_of_title_def or_else_def split_space_first_def
          lower_empty Let_def)
  have c6: "category_of_title None = ''general''"
    by (simp add: category_of_title_def or_else_def split_space_first_def toLowerCase_def)
  from c1 c2 c3 c4 c5 c6 show ?thesis by blast
qed

text \<open>
  Three topics in two groups: \<open>intro\<close> with the first and the third, \<open>proofs\<close>
  with the second.
\<close>

theorem categorizeTopics_partition_witness:
  "categorizeTopics
     [\<lparr>topic_id = ''0'', topic_title = ''Intro to sets'', topic_start = Fin 0, topic_end = Fin 60,
       topic_description = ''a'', topic_segments = []\<rparr>,
      \<lparr>topic_id = ''1'', topic_title = ''Proofs'', topic_start = Fin 61, topic_end = Fin 90,
       topic_description = ''b'', topic_segments = []\<rparr>,
      \<lparr>topic_id = ''2'', topic_title = ''intro again'', topic_start = Fin 91, topic_end = Fin 120,
       topic_description = ''c'', topic_segments = []\<rparr>]
   = [(''intro'',
       [\<lparr>topic_id = ''0'', topic_title = ''Intro to sets'', topic_start = Fin 0, topic_end = Fin 60,
         topic_description = ''a'', topic_segments = []\<rparr>,
        \<lparr>topic_id = ''2'', topic_title = ''intro again'', topic_start = Fin 91, topic_end = Fin 120,
         topic_description = ''c'', topic_segments = []\<rparr>]),
      (''proofs'',
       [\<lparr>topic_id = ''1'', topic_title = ''Proofs'', topic_start = Fin 61, topic_end = Fin 90,
         topic_description = ''b'', topic_segments = []\<rparr>])]
   \<and> distinct (map fst (categorizeTopics
     [\<lparr>topic_id = ''0'', topic_title = ''Intro to sets'', topic_start = Fin 0, topic_end = Fin 60,
       topic_description = ''a'', topic_segments = []\<rparr>,
      \<lparr>topic_id = ''1'', topic_title = ''Proofs'', topic_start = Fin 61, topic_end = Fin 90,
       topic_description = ''b'', topic_segments = []\<rparr>,
      \<lparr>topic_id = ''2'', topic_title = ''intro again'', topic_start = Fin 91, topic_end = Fin 120,
       topic_description = ''c'', topic_segments = []\<rparr>]))"
proof -
  let ?ts = "[\<lparr>topic_id = ''0'', topic_title = ''Intro to sets'', topic_start = Fin 0, topic_end = Fin 60,
       topic_description = ''a'', topic_segments = []\<rparr>,
      \<lparr>topic_id = ''1'', topic_title = ''Proofs'', topic_start = Fin 61, topic_end = Fin 90,
       topic_description = ''b'', topic_segments = []\<rparr>,
      \<lparr>topic_id = ''2'', topic_title = ''intro again'', topic_start = Fin 91, topic_end = Fin 120,
       topic_description = ''c'', topic_segments = []\<rparr>]"
  have ev: "categorizeTopics ?ts = [(''intro'',
       [\<lparr>topic_id = ''0'', topic_title = ''Intro to sets'', topic_start = Fin 0, topic_end = Fin 60,
         topic_description = ''a'', topic_segments = []\<rparr>,
        \<lparr>topic_id = ''2'', topic_title = ''intro again'', topic_start = Fin 91, topic_end = Fin 120,
         topic_description = ''c'', topic_segments = []\<rparr>]),
      (''proofs'',
       [\<lparr>topic_id = ''1'', topic_title = ''Proofs'', topic_start = Fin 61, topic_end = Fin 90,
         topic_description = ''b'', topic_segments = []\<rparr>])]"
    by code_simp
  from categorizeTopics_partition[of ?ts] have "distinct (map fst (categorizeTopics ?ts))"
    by (rule conjunct1)
  with ev show ?thesis by (rule conjI)
qed

text \<open>
  Claim C9 as it is stated fails for a title that begins with a space: the
  title is not empty and its first word is \<open>intro\<close>, yet the topic is filed
  under \<open>general\<close>.
\<close>

theorem category_counterexample:
  "topic_title \<lparr>topic_id = ''0'', topic_title = '' intro'', topic_start = Fin 0, topic_end = Fin 60,
       topic_description = ''d'', topic_segments = []\<rparr> \<noteq> []
   \<and> spec_category \<lparr>topic_id = ''0'', topic_title = '' intro'', topic_start = Fin 0, topic_end = Fin 60,
       topic_description = ''d'', topic_segments = []\<rparr> = ''intro''
   \<and> category_of \<lparr>topic_id = ''0'', topic_title = '' intro'', topic_start = Fin 0, topic_end = Fin 60,
       topic_description = ''d'', topic_segments = []\<rparr>
       \<noteq> spec_category \<lparr>topic_id = ''0'', topic_title = '' intro'', topic_start = Fin 0,
           topic_end = Fin 60, topic_description = ''d'', topic_segments = []\<rparr>
   \<and> categorizeTopics [\<lparr>topic_id = ''0'', topic_title = '' intro'', topic_start = Fin 0, topic_end = Fin 60,
       topic_description = ''d'', topic_segments = []\<rparr>] =
       [(''general'', [\<lparr>topic_id = ''0'', topic_title = '' intro'', topic_start = Fin 0, topic_end = Fin 60,
       topic_description = ''d'', topic_segments = []\<rparr>])]"
  by (simp add: spec_category_def first_word_def toLowerCase_def toLowerCase_char_def
        split_space_first_def categorizeTopics_def categorize_step_def category_of_def
        category_of_title_def or_else_def map_has_def map_set_empty_def map_push_def Let_def)

section \<open>Persistence\<close>

lemma roundtrip_number [simp]:
  "JSON_parse (case n of Fin x \<Rightarrow> JsonNum x | _ \<Rightarrow> JsonNull) = JsNum n \<longleftrightarrow> finite_number n"
  by (cases n) simp_all

lemma roundtrip_segment:
  "JSON_parse (JSON_stringify (js_of_segment s)) = js_of_segment s \<longleftrightarrow>
     finite_number (seg_id s) \<and> finite_number (seg_start s) \<and> finite_number (seg_end s)"
  by (simp add: js_of_segment_def)

lemma roundtrip_topic:
  "JSON_parse (JSON_stringify (js_of_topic t)) = js_of_topic t \<longleftrightarrow>
     finite_number (topic_start t) \<and> finite_number (topic_end t)"
  by (simp add: js_of_topic_def comp_def)

text \<open>
  Claim C7, amended. A result round-trips exactly when all its numbers (the
  ids, starts and ends of its segments, the starts and ends of its topics)
  are finite: then, and only then, what the topic navigator reads under the
  key \<open>lectureTranscript\<close>, after the processor has written the result there,
  is the value that was written.
\<close>

theorem transcript_storage_roundtrip:
  "navigator_transcriptData (setTranscriptData r store) = js_of_response r
     \<longleftrightarrow> finite_numbers r"
proof -
  have "navigator_transcriptData (setTranscriptData r store) =
      JSON_parse (JSON_stringify (js_of_response r))"
    by (simp add: navigator_transcriptData_def setTranscriptData_def storedValue_def setValue_def)
  moreover have "JSON_parse (JSON_stringify (js_of_response r)) = js_of_response r \<longleftrightarrow>
      (\<forall>s \<in> set (transcript_segments (transcript r)).
          JSON_parse (JSON_stringify (js_of_segment s)) = js_of_segment s)
      \<and> (\<forall>t \<in> set (topics r). JSON_parse (JSON_stringify (js_of_topic t)) = js_of_topic t)"
    by (simp add: js_of_response_def comp_def)
  ultimately show ?thesis
    by (simp add: roundtrip_segment roundtrip_topic finite_numbers_def list_all_iff)
qed

text \<open>One segment and one topic, written into an empty storage.\<close>

theorem transcript_storage_roundtrip_witness:
  "finite_numbers
     \<lparr>transcript = \<lparr>transcript_text = ''hello'', transcript_segments =
         [\<lparr>seg_id = Fin 0, seg_start = Fin 0, seg_end = Fin 5, seg_text = ''hello''\<rparr>]\<rparr>,
      topics = [\<lparr>topic_id = ''0'', topic_title = ''Greeting'', topic_start = Fin 0,
         topic_end = Fin 5, topic_description = ''d'', topic_segments = [0]\<rparr>]\<rparr>
   \<and> navigator_transcriptData (setTranscriptData
       \<lparr>transcript = \<lparr>transcript_text = ''hello'', transcript_segments =
           [\<lparr>seg_id = Fin 0, seg_start = Fin 0, seg_end = Fin 5, seg_text = ''hello''\<rparr>]\<rparr>,
        topics = [\<lparr>topic_id = ''0'', topic_title = ''Greeting'', topic_start = Fin 0,
           topic_end = Fin 5, topic_description = ''d'', topic_segments = [0]\<rparr>]\<rparr>
       (\<lambda>k. None))
     = JsObj [(''transcript'',
               JsObj [(''text'', JsStr ''hello''),
                      (''segments'', JsArr [JsObj [(''id'', JsNum (Fin 0)), (''start'', JsNum (Fin 0)),
                          (''end'', JsNum (Fin 5)), (''text'', JsStr ''hello'')]])]),
            (''topics'', JsArr [JsObj [(''id'', JsStr ''0''), (''title'', JsStr ''Greeting''),
                (''description'', JsStr ''d''), (''start'', JsNum (Fin 0)), (''end'', JsNum (Fin 5)),
                (''segments'', JsArr [JsNum (Fin 0)])]])]"
proof -
  let ?r = "\<lparr>transcript = \<lparr>transcript_text = ''hello'', transcript_segments =
           [\<lparr>seg_id = Fin 0, seg_start = Fin 0, seg_end = Fin 5, seg_text = ''hello''\<rparr>]\<rparr>,
        topics = [\<lparr>topic_id = ''0'', topic_title = ''Greeting'', topic_start = Fin 0,
           topic_end = Fin 5, topic_description = ''d'', topic_segments = [0]\<rparr>]\<rparr>"
  have fin: "finite_numbers ?r" by (simp add: finite_numbers_def)
  from transcript_storage_roundtrip[of ?r "\<lambda>k. None"] fin
  show ?thesis by (simp add: js_of_response_def js_of_segment_def js_of_topic_def)
qed

text \<open>
  Claim C7 as it is stated fails for a number that is not finite: an extracted
  topic whose \<open>start\<close> is \<open>Infinity\<close> (a number for \<open>typeof\<close>, so \<open>processAudio\<close>
  keeps it) is written with \<open>null\<close> for its start, and that is what is read
  back.
\<close>

theorem transcript_storage_counterexample:
  "formattedTopics []
       [\<lparr>rt_topic = Some ''Greeting'', rt_title = None, rt_description = Some ''d'',
         rt_start = JNumber PInf, rt_end = JNumber (Fin 5)\<rparr>]
   = [\<lparr>topic_id = ''0'', topic_title = ''Greeting'', topic_start = PInf,
        topic_end = Fin 5, topic_description = ''d'', topic_segments = []\<rparr>]
   \<and> navigator_transcriptData (setTranscriptData
       \<lparr>transcript = \<lparr>transcript_text = ''hello'', transcript_segments = []\<rparr>,
        topics = [\<lparr>topic_id = ''0'', topic_title = ''Greeting'', topic_start = PInf,
           topic_end = Fin 5, topic_description = ''d'', topic_segments = []\<rparr>]\<rparr>
       (\<lambda>k. None))
   = JsObj [(''transcript'', JsObj [(''text'', JsStr ''hello''), (''segments'', JsArr [])]),
            (''topics'', JsArr [JsObj [(''id'', JsStr ''0''), (''title'', JsStr ''Greeting''),
                (''description'', JsStr ''d''), (''start'', JsNull), (''end'', JsNum (Fin 5)),
                (''segments'', JsArr [])]])]
   \<and> navigator_transcriptData (setTranscriptData
       \<lparr>transcript = \<lparr>transcript_text = ''hello'', transcript_segments = []\<rparr>,
        topics = [\<lparr>topic_id = ''0'', topic_title = ''Greeting'', topic_start = PInf,
           topic_end = Fin 5, topic_description = ''d'', topic_segments = []\<rparr>]\<rparr>
       (\<lambda>k. None))
   \<noteq> js_of_response
       \<lparr>transcript = \<lparr>transcript_text = ''hello'', transcript_segments = []\<rparr>,
        topics = [\<lparr>topic_id = ''0'', topic_title = ''Greeting'', topic_start = PInf,
           topic_end = Fin 5, topic_description = ''d'', topic_segments = []\<rparr>]\<rparr>"
  by (simp add: navigator_transcriptData_def setTranscriptData_def storedValue_def setValue_def
        js_of_response_def js_of_topic_def formattedTopics_def map_index_def formatTopic_def
        filter_not_null_def toString_nat.simps digit_char_def or_else_def)

end
